theory Spec2Isabelle
  imports Complex_Main "HOL-Library.Word"
begin

unbundle bit_operations_syntax

section \<open>Data model\<close>

text \<open>
  The byte-SIMD layer of Fog (\<^verbatim>\<open>Fog::ByteSIMD\<close> in \<^verbatim>\<open>Raster_SSE2_p.h\<close>) works on
  unsigned 32-bit and 64-bit machine integers.  All C++ arithmetic on \<^verbatim>\<open>uint32_t\<close> and
  \<^verbatim>\<open>uint64_t\<close> wraps around, which is the arithmetic of \<^typ>\<open>32 word\<close> and
  \<^typ>\<open>64 word\<close>.  \<^verbatim>\<open>x >> n\<close> is \<^const>\<open>drop_bit\<close>, \<^verbatim>\<open>x << n\<close> is
  \<^const>\<open>push_bit\<close>, the cast \<^verbatim>\<open>(uint64_t)x\<close> and the cast back are \<^const>\<open>ucast\<close>.

  A function \<^verbatim>\<open>void f(b32_1x2& dst0, ...)\<close> that assigns its out-parameter on every
  path is modelled as a function returning the new value of \<^verbatim>\<open>dst0\<close>; a 2x form
  returns the pair \<^verbatim>\<open>(dst0, dst1)\<close>.  Where the source leaves an out-parameter
  unassigned, the value it had before the call is an argument of the model.
\<close>

type_synonym uint32_t = "32 word"
type_synonym uint64_t = "64 word"
type_synonym b32_1x1 = "32 word"
type_synonym b32_1x2 = "32 word"
type_synonym b64_1x4 = "64 word"

subsection \<open>Constants\<close>

definition BYTE1x1HALF :: b32_1x1 where
  "BYTE1x1HALF = 0x00000080"

definition BYTE1x1MASK :: b32_1x1 where
  "BYTE1x1MASK = 0x000000FF"

definition BYTE1x2HALF :: b32_1x2 where
  "BYTE1x2HALF = 0x00800080"

definition BYTE1x2MASK :: b32_1x2 where
  "BYTE1x2MASK = 0x00FF00FF"

text \<open>The source writes this constant as \<^verbatim>\<open>0x10000100U\<close>.\<close>

definition BYTE1x2MASK_PLUS_ONE :: b32_1x2 where
  "BYTE1x2MASK_PLUS_ONE = 0x10000100"

definition BYTE_1x4MASK :: b64_1x4 where
  "BYTE_1x4MASK = 0x00FF00FF00FF00FF"

section \<open>Scalar fixed-point primitives\<close>

text \<open>
  \<^verbatim>\<open>FOG_BYTESIMD_USE_CONDITIONAL_INSTRUCTIONS\<close> is commented out in the source, so the
  branch-free \<^verbatim>\<open>#else\<close> bodies of \<^verbatim>\<open>u32Addus\<close> and \<^verbatim>\<open>u32Subus\<close> are the ones
  compiled.
\<close>

definition u32Addus :: "b32_1x1 \<Rightarrow> b32_1x1 \<Rightarrow> uint32_t" where
  "u32Addus x y =
    (let x = x + y;
         x = x OR (0x0100 - (drop_bit 8 x AND 0x00FF));
         x = x AND 0x00FF
     in x)"

definition u32Subus :: "b32_1x1 \<Rightarrow> b32_1x1 \<Rightarrow> uint32_t" where
  "u32Subus x y =
    (let x = x - y;
         x = x AND (drop_bit 24 x XOR 0xFF)
     in x)"

definition u32Div255 :: "uint32_t \<Rightarrow> uint32_t" where
  "u32Div255 i = drop_bit 16 (push_bit 8 i + (i + 256))"

definition u32MulDiv255 :: "b32_1x1 \<Rightarrow> b32_1x1 \<Rightarrow> b32_1x1" where
  "u32MulDiv255 x a =
    (let x = x * a;
         x = drop_bit 8 (x + drop_bit 8 x + 0x80)
     in x)"

text \<open>
  The rounded quotient the specification compares against, in its own words:
  \<open>round (v / 255.0)\<close>, the nearest integer with ties resolved upward.
\<close>

definition round_div255 :: "nat \<Rightarrow> int" where
  "round_div255 v = round (real v / 255)"

section \<open>Widened-channel packing layer\<close>

definition b32_2x2Pack0213 :: "b32_1x2 \<Rightarrow> b32_1x2 \<Rightarrow> b32_1x2" where
  "b32_2x2Pack0213 a0 a1 = a0 OR push_bit 8 a1"

definition b32_2x2Unpack0213 :: "uint32_t \<Rightarrow> b32_1x2 \<times> b32_1x2" where
  "b32_2x2Unpack0213 a0 =
    (let dst0 = a0;
         dst1 = drop_bit 8 a0;
         dst0 = dst0 AND BYTE1x2MASK;
         dst1 = dst1 AND BYTE1x2MASK
     in (dst0, dst1))"

definition b32_1x2GetB0 :: "b32_1x2 \<Rightarrow> b32_1x1" where
  "b32_1x2GetB0 a0 = a0 AND 0xFF"

definition b32_1x2GetB1 :: "b32_1x2 \<Rightarrow> b32_1x1" where
  "b32_1x2GetB1 a0 = drop_bit 16 a0"

definition b32_1x2ExtendB0 :: "b32_1x2 \<Rightarrow> b32_1x2" where
  "b32_1x2ExtendB0 src0 = src0 * 0x00010001"

definition b64_1x4Pack0213 :: "b64_1x4 \<Rightarrow> uint32_t" where
  "b64_1x4Pack0213 x0 = ucast (x0 OR drop_bit 24 x0)"

definition b64_1x4Unpack0213 :: "uint32_t \<Rightarrow> b64_1x4" where
  "b64_1x4Unpack0213 a0 = (ucast a0 OR push_bit 24 (ucast a0)) AND BYTE_1x4MASK"

section \<open>Packed-channel arithmetic\<close>

subsection \<open>Saturate\<close>

definition b32_1x2Saturate :: "b32_1x2 \<Rightarrow> b32_1x2" where
  "b32_1x2Saturate dst0 =
    (let dst0 = dst0 OR (BYTE1x2MASK_PLUS_ONE - (drop_bit 8 dst0 AND BYTE1x2MASK));
         dst0 = dst0 AND 0x00FF00FF
     in dst0)"

definition b32_2x2Saturate :: "b32_1x2 \<Rightarrow> b32_1x2 \<Rightarrow> b32_1x2 \<times> b32_1x2" where
  "b32_2x2Saturate dst0 dst1 =
    (let dst0 = dst0 OR (BYTE1x2MASK_PLUS_ONE - (drop_bit 8 dst0 AND BYTE1x2MASK));
         dst1 = dst1 OR (BYTE1x2MASK_PLUS_ONE - (drop_bit 8 dst1 AND BYTE1x2MASK));
         dst0 = dst0 AND 0x00FF00FF;
         dst1 = dst1 AND 0x00FF00FF
     in (dst0, dst1))"

subsection \<open>Add\<close>

definition b32_1x2AddB32_1x2 :: "b32_1x2 \<Rightarrow> b32_1x2 \<Rightarrow> b32_1x2" where
  "b32_1x2AddB32_1x2 a0 b0 = a0 + b0"

definition b32_2x2AddB32_2x2 ::
  "b32_1x2 \<Rightarrow> b32_1x2 \<Rightarrow> b32_1x2 \<Rightarrow> b32_1x2 \<Rightarrow> b32_1x2 \<times> b32_1x2" where
  "b32_2x2AddB32_2x2 a0 b0 a1 b1 = (a0 + b0, a1 + b1)"

definition b32_1x2AddU :: "b32_1x2 \<Rightarrow> b32_1x1 \<Rightarrow> b32_1x2" where
  "b32_1x2AddU a0 u = (let u = b32_1x2ExtendB0 u in a0 + u)"

definition b32_1x2AddusB32_1x2 :: "b32_1x2 \<Rightarrow> b32_1x2 \<Rightarrow> b32_1x2" where
  "b32_1x2AddusB32_1x2 a0 b0 = (let dst0 = a0 + b0 in b32_1x2Saturate dst0)"

definition b32_2x2AddusB32_2x2 ::
  "b32_1x2 \<Rightarrow> b32_1x2 \<Rightarrow> b32_1x2 \<Rightarrow> b32_1x2 \<Rightarrow> b32_1x2 \<times> b32_1x2" where
  "b32_2x2AddusB32_2x2 a0 b0 a1 b1 =
    (let dst0 = a0 + b0;
         dst1 = a1 + b1
     in b32_2x2Saturate dst0 dst1)"

definition b32_1x2AddusU :: "b32_1x2 \<Rightarrow> b32_1x1 \<Rightarrow> b32_1x2" where
  "b32_1x2AddusU a0 u =
    (let u = b32_1x2ExtendB0 u;
         dst0 = a0 + u
     in b32_1x2Saturate dst0)"

subsection \<open>Sub\<close>

definition b32_1x2SubB32_1x2 :: "b32_1x2 \<Rightarrow> b32_1x2 \<Rightarrow> b32_1x2" where
  "b32_1x2SubB32_1x2 a0 b0 = a0 - b0"

definition b32_1x2SubU :: "b32_1x2 \<Rightarrow> uint32_t \<Rightarrow> b32_1x2" where
  "b32_1x2SubU a0 u = (let u = b32_1x2ExtendB0 u in a0 - u)"

definition b32_1x2SubusB32_1x2 :: "b32_1x2 \<Rightarrow> b32_1x2 \<Rightarrow> b32_1x2" where
  "b32_1x2SubusB32_1x2 a0 b0 =
    (let dst0 = (a0 XOR BYTE1x2MASK) + b0;
         dst0 = b32_1x2Saturate dst0
     in dst0 XOR BYTE1x2MASK)"

definition b32_1x2SubusU :: "b32_1x2 \<Rightarrow> uint32_t \<Rightarrow> b32_1x2" where
  "b32_1x2SubusU a0 u =
    (let u = b32_1x2ExtendB0 u;
         dst0 = (a0 XOR BYTE1x2MASK) + u;
         dst0 = b32_1x2Saturate dst0
     in dst0 XOR BYTE1x2MASK)"

subsection \<open>AddSub\<close>

definition b32_1x2AddSubB32_1x2 :: "b32_1x2 \<Rightarrow> b32_1x2 \<Rightarrow> b32_1x2 \<Rightarrow> b32_1x2" where
  "b32_1x2AddSubB32_1x2 a0 b0 c0 = a0 + b0 - c0"

text \<open>
  The body of the 2x form assigns \<^verbatim>\<open>dst0\<close> twice and never assigns \<^verbatim>\<open>dst1\<close>
  (source lines 808-809), so the value \<^verbatim>\<open>dst1\<close> had before the call is returned
  unchanged; the first argument of the model is that value.
\<close>

definition b32_2x2AddSubB32_2x2 ::
  "b32_1x2 \<Rightarrow> b32_1x2 \<Rightarrow> b32_1x2 \<Rightarrow> b32_1x2 \<Rightarrow> b32_1x2 \<Rightarrow> b32_1x2 \<Rightarrow> b32_1x2
    \<Rightarrow> b32_1x2 \<times> b32_1x2" where
  "b32_2x2AddSubB32_2x2 dst1 a0 b0 c0 a1 b1 c1 =
    (let dst0 = a0 + b0 - c0;
         dst0 = a1 + b1 - c1
     in (dst0, dst1))"

definition b32_1x2AddSubusB32_1x2 :: "b32_1x2 \<Rightarrow> b32_1x2 \<Rightarrow> b32_1x2 \<Rightarrow> b32_1x2" where
  "b32_1x2AddSubusB32_1x2 a0 b0 c0 =
    (let dst0 = a0 + b0;
         x0lo = dst0 AND 0x000001FF;
         x0hi = drop_bit 16 (dst0 AND 0x01FF0000);
         x0lo = x0lo - (c0 AND 0x0000FFFF);
         x0hi = x0hi - drop_bit 16 (c0 AND 0xFFFF0000);
         x0lo = x0lo AND drop_bit 16 ((NOT x0lo) AND 0xFFFF0000);
         x0hi = x0hi AND drop_bit 16 ((NOT x0hi) AND 0xFFFF0000);
         dst0 = x0lo OR push_bit 16 x0hi
     in b32_1x2Saturate dst0)"

subsection \<open>Mul and MulDiv\<close>

definition b32_1x2MulU :: "b32_1x2 \<Rightarrow> b32_1x1 \<Rightarrow> b32_1x2" where
  "b32_1x2MulU a0 u = a0 * u"

definition b32_1x2MulDiv255U :: "b32_1x2 \<Rightarrow> uint32_t \<Rightarrow> b32_1x2" where
  "b32_1x2MulDiv255U a0 u =
    (let dst0 = a0 * u;
         dst0 = drop_bit 8 (dst0 + (drop_bit 8 dst0 AND BYTE1x2MASK) + BYTE1x2HALF)
                  AND BYTE1x2MASK
     in dst0)"

definition b32_2x2MulDiv255U ::
  "b32_1x2 \<Rightarrow> b32_1x2 \<Rightarrow> uint32_t \<Rightarrow> b32_1x2 \<times> b32_1x2" where
  "b32_2x2MulDiv255U a0 a1 u =
    (let dst0 = a0 * u;
         dst0 = drop_bit 8 (dst0 + (drop_bit 8 dst0 AND BYTE1x2MASK) + BYTE1x2HALF)
                  AND BYTE1x2MASK;
         dst1 = a1 * u;
         dst1 = drop_bit 8 (dst1 + (drop_bit 8 dst1 AND BYTE1x2MASK) + BYTE1x2HALF)
                  AND BYTE1x2MASK
     in (dst0, dst1))"

definition b32_1x2MulDiv255U_AddusB32_1x2 ::
  "b32_1x2 \<Rightarrow> uint32_t \<Rightarrow> b32_1x2 \<Rightarrow> b32_1x2" where
  "b32_1x2MulDiv255U_AddusB32_1x2 a0 b0 c0 =
    (let dst0 = b32_1x2MulDiv255U a0 b0
     in b32_1x2AddusB32_1x2 dst0 c0)"

definition b32_1x2MulDiv255B32_1x2 :: "b32_1x2 \<Rightarrow> b32_1x2 \<Rightarrow> b32_1x2" where
  "b32_1x2MulDiv255B32_1x2 a0 b0 =
    (let dst0 = ((a0 AND 0x000000FF) * (b0 AND 0x000000FF))
                OR ((a0 AND 0x00FF0000) * drop_bit 16 (b0 AND 0x00FF0000));
         dst0 = drop_bit 8 (dst0 + (drop_bit 8 dst0 AND BYTE1x2MASK) + BYTE1x2HALF)
                  AND BYTE1x2MASK
     in dst0)"

definition b32_1x2MulDiv255B32_1x2_AddB32_1x2 ::
  "b32_1x2 \<Rightarrow> b32_1x2 \<Rightarrow> b32_1x2 \<Rightarrow> b32_1x2" where
  "b32_1x2MulDiv255B32_1x2_AddB32_1x2 a0 b0 c0 =
    (let dst0 = b32_1x2MulDiv255B32_1x2 a0 b0
     in b32_1x2AddB32_1x2 dst0 c0)"

definition b32_1x2MulDiv255B32_1x2_AddusB32_1x2 ::
  "b32_1x2 \<Rightarrow> b32_1x2 \<Rightarrow> b32_1x2 \<Rightarrow> b32_1x2" where
  "b32_1x2MulDiv255B32_1x2_AddusB32_1x2 a0 b0 c0 =
    (let dst0 = b32_1x2MulDiv255B32_1x2 a0 b0
     in b32_1x2AddusB32_1x2 dst0 c0)"

definition b32_1x2MulDiv255U_2x_Add ::
  "b32_1x2 \<Rightarrow> uint32_t \<Rightarrow> b32_1x2 \<Rightarrow> uint32_t \<Rightarrow> b32_1x2" where
  "b32_1x2MulDiv255U_2x_Add a0 b0 c0 d0 =
    (let dst0 = a0 * b0 + c0 * d0;
         dst0 = drop_bit 8 (dst0 + (drop_bit 8 dst0 AND BYTE1x2MASK) + BYTE1x2HALF)
                  AND BYTE1x2MASK
     in dst0)"

definition b32_1x2MulDiv255U_2x_Addus ::
  "b32_1x2 \<Rightarrow> uint32_t \<Rightarrow> b32_1x2 \<Rightarrow> uint32_t \<Rightarrow> b32_1x2" where
  "b32_1x2MulDiv255U_2x_Addus a0 b0 c0 d0 =
    (let a0 = b32_1x2MulDiv255U a0 b0;
         c0 = b32_1x2MulDiv255U c0 d0
     in b32_1x2AddusB32_1x2 a0 c0)"

definition b32_1x2MulDiv256U :: "b32_1x2 \<Rightarrow> uint32_t \<Rightarrow> b32_1x2" where
  "b32_1x2MulDiv256U a0 u = drop_bit 8 (a0 * u) AND BYTE1x2MASK"

text \<open>
  As in \<^verbatim>\<open>b32_2x2AddSubB32_2x2\<close>, the 2x form assigns \<^verbatim>\<open>dst0\<close> twice and never
  \<^verbatim>\<open>dst1\<close> (source lines 1163-1164); the first argument is the incoming \<^verbatim>\<open>dst1\<close>.
\<close>

definition b32_2x2MulDiv256U ::
  "b32_1x2 \<Rightarrow> b32_1x2 \<Rightarrow> b32_1x2 \<Rightarrow> uint32_t \<Rightarrow> b32_1x2 \<times> b32_1x2" where
  "b32_2x2MulDiv256U dst1 a0 a1 u =
    (let dst0 = drop_bit 8 (a0 * u) AND BYTE1x2MASK;
         dst0 = drop_bit 8 (a1 * u) AND BYTE1x2MASK
     in (dst0, dst1))"

subsection \<open>Min and Max\<close>

definition b32_1x2MinU :: "b32_1x2 \<Rightarrow> uint32_t \<Rightarrow> b32_1x2" where
  "b32_1x2MinU a0 u =
    (let a0lo = a0 AND 0x000000FF;
         a0lo = (if a0lo > u then u else a0lo);
         u = push_bit 16 u;
         a0hi = a0 AND 0x00FF0000;
         a0hi = (if a0hi > u then u else a0hi)
     in a0lo OR a0hi)"

definition b32_1x2MinB32_1x2 :: "b32_1x2 \<Rightarrow> b32_1x2 \<Rightarrow> b32_1x2" where
  "b32_1x2MinB32_1x2 a0 b0 =
    (let a0lo = a0 AND 0x000000FF;
         b0lo = b0 AND 0x000000FF;
         a0hi = a0 AND 0x00FF0000;
         b0hi = b0 AND 0x00FF0000;
         a0lo = (if a0lo > b0lo then b0lo else a0lo);
         a0hi = (if a0hi > b0hi then b0hi else a0hi)
     in a0lo OR a0hi)"

text \<open>The source compares the high lane with the unshifted \<^verbatim>\<open>u\<close> (line 1264).\<close>

definition b32_1x2MaxU :: "b32_1x2 \<Rightarrow> uint32_t \<Rightarrow> b32_1x2" where
  "b32_1x2MaxU a0 u =
    (let a0lo = a0 AND 0x000000FF;
         a0hi = a0 AND 0x00FF0000;
         a0lo = (if a0lo < u then u else a0lo);
         a0hi = (if a0hi < u then u else a0hi)
     in a0lo OR a0hi)"

definition b32_1x2MaxB32_1x2 :: "b32_1x2 \<Rightarrow> b32_1x2 \<Rightarrow> b32_1x2" where
  "b32_1x2MaxB32_1x2 a0 b0 =
    (let a0lo = a0 AND 0x000000FF;
         a0hi = a0 AND 0x00FF0000;
         b0lo = b0 AND 0x000000FF;
         b0hi = b0 AND 0x00FF0000;
         a0lo = (if a0lo < b0lo then b0lo else a0lo);
         a0hi = (if a0hi < b0hi then b0hi else a0hi)
     in a0lo OR a0hi)"

subsection \<open>Shift\<close>

text \<open>
  Shifting a 32-bit value by 32 or more is undefined behaviour in C++; the variable
  shifts return \<^const>\<open>None\<close> there.
\<close>

definition b32_1x2ShiftLeftU :: "uint32_t \<Rightarrow> uint32_t \<Rightarrow> b32_1x2 option" where
  "b32_1x2ShiftLeftU a0 u = (if u < 32 then Some (push_bit (unat u) a0) else None)"

definition b32_1x2ShiftLeft1 :: "b32_1x2 \<Rightarrow> b32_1x2" where
  "b32_1x2ShiftLeft1 a0 = a0 + a0"

definition b32_1x2ShiftLeft1_B0 :: "b32_1x2 \<Rightarrow> b32_1x2" where
  "b32_1x2ShiftLeft1_B0 a0 = a0 + (a0 AND 0x000000FF)"

definition b32_1x2ShiftLeft1_B1 :: "b32_1x2 \<Rightarrow> b32_1x2" where
  "b32_1x2ShiftLeft1_B1 a0 = a0 + (a0 AND 0x00FF0000)"

definition b32_1x2ShiftRightU :: "b32_1x2 \<Rightarrow> uint32_t \<Rightarrow> b32_1x2 option" where
  "b32_1x2ShiftRightU a0 u = (if u < 32 then Some (drop_bit (unat u) a0) else None)"

subsection \<open>Negate\<close>

definition b32_1x2Negate :: "uint32_t \<Rightarrow> b32_1x2" where
  "b32_1x2Negate a0 = a0 XOR 0x00FF00FF"

definition b32_1x2Negate_B0 :: "uint32_t \<Rightarrow> b32_1x2" where
  "b32_1x2Negate_B0 a0 = a0 XOR 0x000000FF"

definition b32_1x2Negate_B1 :: "uint32_t \<Rightarrow> b32_1x2" where
  "b32_1x2Negate_B1 a0 = a0 XOR 0x00FF0000"

subsection \<open>Premultiply\<close>

definition b32_2x2PremultiplyU ::
  "b32_1x2 \<Rightarrow> b32_1x2 \<Rightarrow> uint32_t \<Rightarrow> b32_1x2 \<times> b32_1x2" where
  "b32_2x2PremultiplyU a0 a1 u =
    (let dst0 = a0 * u;
         dst1 = (a1 AND 0xFF) * u;
         u = push_bit 16 u;
         dst0 = drop_bit 8 (dst0 + (drop_bit 8 dst0 AND BYTE1x2MASK) + BYTE1x2HALF)
                  AND BYTE1x2MASK;
         dst1 = drop_bit 8 (dst1 + drop_bit 8 dst1 + BYTE1x1HALF);
         dst1 = dst1 OR u
     in (dst0, dst1))"

definition b32_2x2PremultiplyA :: "b32_1x2 \<Rightarrow> b32_1x2 \<Rightarrow> b32_1x2 \<times> b32_1x2" where
  "b32_2x2PremultiplyA a0 a1 = b32_2x2PremultiplyU a0 a1 (b32_1x2GetB1 a1)"

subsection \<open>Interpolate\<close>

definition b32_2x2InterpolateU255 ::
  "b32_1x2 \<Rightarrow> uint32_t \<Rightarrow> b32_1x2 \<Rightarrow> uint32_t \<Rightarrow>
   b32_1x2 \<Rightarrow> uint32_t \<Rightarrow> b32_1x2 \<Rightarrow> uint32_t \<Rightarrow> b32_1x2 \<times> b32_1x2" where
  "b32_2x2InterpolateU255 a0 b0 c0 d0 a1 b1 c1 d1 =
    (let dst0 = a0 * b0 + c0 * d0;
         dst1 = a1 * b1 + c1 * d1;
         dst0 = dst0 + (drop_bit 8 dst0 AND 0x00FF00FF) + 0x00800080;
         dst1 = dst1 + (drop_bit 8 dst1 AND 0x00FF00FF) + 0x00800080;
         dst0 = dst0 AND BYTE1x2MASK;
         dst1 = dst1 AND BYTE1x2MASK
     in (dst0, dst1))"

definition b32_2x2InterpolateU256 ::
  "b32_1x2 \<Rightarrow> uint32_t \<Rightarrow> b32_1x2 \<Rightarrow> uint32_t \<Rightarrow>
   b32_1x2 \<Rightarrow> uint32_t \<Rightarrow> b32_1x2 \<Rightarrow> uint32_t \<Rightarrow> b32_1x2 \<times> b32_1x2" where
  "b32_2x2InterpolateU256 a0 b0 c0 d0 a1 b1 c1 d1 =
    (let dst0 = a0 * b0 + c0 * d0;
         dst1 = a1 * b1 + c1 * d1;
         dst0 = drop_bit 8 dst0;
         dst1 = drop_bit 8 dst1;
         dst0 = dst0 AND BYTE1x2MASK;
         dst1 = dst1 AND BYTE1x2MASK
     in (dst0, dst1))"

section \<open>Tight-pixel composite operators\<close>

text \<open>
  \<^verbatim>\<open>FOG_ARCH_BITS\<close> is defined by the build headers, which are not part of the
  sources at hand; it is the first argument of the two operators below.  The source
  tests \<^verbatim>\<open>FOG_ARCH_BITS == 64\<close> and takes the 32-bit body otherwise.
\<close>

definition p32MulDiv255U :: "nat \<Rightarrow> uint32_t \<Rightarrow> uint32_t \<Rightarrow> uint32_t" where
  "p32MulDiv255U FOG_ARCH_BITS x a =
    (if FOG_ARCH_BITS = 64 then
       (let x0 = (ucast x OR push_bit 24 (ucast x)) AND (0x00FF00FF00FF00FF :: uint64_t);
            x0 = x0 * ucast a;
            x0 = drop_bit 8 (x0 + (drop_bit 8 x0 AND 0x00FF00FF00FF00FF) + 0x0080008000800080);
            x0 = x0 AND 0x00FF00FF00FF00FF
        in ucast (x0 OR drop_bit 24 x0))
     else
       (let t0 = (x AND 0x00FF00FF) * a;
            t1 = drop_bit 8 (x AND 0xFF00FF00) * a;
            x = drop_bit 8 (t0 + (drop_bit 8 t0 AND 0x00FF00FF) + 0x00800080) AND 0x00FF00FF;
            x = x OR ((t1 + (drop_bit 8 t1 AND 0x00FF00FF) + 0x00800080) AND 0xFF00FF00)
        in x))"

definition p32AddusP32 :: "nat \<Rightarrow> uint32_t \<Rightarrow> uint32_t \<Rightarrow> uint32_t" where
  "p32AddusP32 FOG_ARCH_BITS x y =
    (if FOG_ARCH_BITS = 64 then
       (let x0 = (ucast x OR push_bit 24 (ucast x)) AND (0x00FF00FF00FF00FF :: uint64_t);
            y0 = (ucast y OR push_bit 24 (ucast y)) AND (0x00FF00FF00FF00FF :: uint64_t);
            x0 = x0 + y0;
            x0 = x0 OR (0x0100010001000100 - (drop_bit 8 x0 AND 0x00FF00FF00FF00FF));
            x0 = x0 AND 0x00FF00FF00FF00FF
        in ucast (x0 OR drop_bit 24 x0))
     else
       (let t0 = x AND 0x00FF00FF;
            t1 = drop_bit 8 (x AND 0xFF00FF00);
            t0 = t0 + (y AND 0x00FF00FF);
            t1 = t1 + drop_bit 8 (y AND 0xFF00FF00);
            t0 = t0 OR (0x01000100 - (drop_bit 8 t0 AND 0x00FF00FF));
            t1 = t1 OR (0x01000100 - (drop_bit 8 t1 AND 0x00FF00FF));
            t0 = t0 AND 0x00FF00FF;
            t1 = t1 AND 0x00FF00FF
        in t0 OR push_bit 8 t1))"

section \<open>Vocabulary of the properties\<close>

text \<open>
  A widened pair holds lane B0 in bits 0..15 and lane B1 in bits 16..31.  The headroom
  invariant of the specification: each lane holds a value in \<open>[0,255]\<close>, that is, the
  upper 8 bits of each 16-bit lane are zero.
\<close>

definition b32_lane0 :: "b32_1x2 \<Rightarrow> 32 word" where
  "b32_lane0 w = take_bit 16 w"

definition b32_lane1 :: "b32_1x2 \<Rightarrow> 32 word" where
  "b32_lane1 w = drop_bit 16 w"

definition lanes_ok :: "b32_1x2 \<Rightarrow> bool" where
  "lanes_ok w \<longleftrightarrow> b32_lane0 w \<le> 255 \<and> b32_lane1 w \<le> 255"

definition headroom_mask :: "32 word" where
  "headroom_mask = 0xFF00FF00"

text \<open>Two 16-bit lanes put side by side, and two 32-bit words put side by side.\<close>

definition lanes2 :: "32 word \<Rightarrow> 32 word \<Rightarrow> 32 word" where
  "lanes2 p q = take_bit 16 p OR push_bit 16 q"

definition join64 :: "32 word \<Rightarrow> 32 word \<Rightarrow> 64 word" where
  "join64 a b = ucast a OR push_bit 32 (ucast b)"

section \<open>Theorems: scalar primitives\<close>

subsection \<open>Reading words as numbers\<close>

lemmas byte_consts =
  BYTE1x1HALF_def BYTE1x1MASK_def BYTE1x2HALF_def BYTE1x2MASK_def
  BYTE1x2MASK_PLUS_ONE_def BYTE_1x4MASK_def

lemma unat_take: "unat (take_bit n (x :: 'a::len word)) = unat x mod 2 ^ n"
  by (subst unsigned_take_bit_eq) (rule take_bit_eq_mod)

lemma unat_drop: "unat (drop_bit n (x :: 'a::len word)) = unat x div 2 ^ n"
  by (subst unat_drop_bit_eq) (rule drop_bit_eq_div)

lemma and_FF: "(x :: 32 word) AND 0xFF = take_bit 8 x"
  using take_bit_eq_mask [of 8 x] by (simp add: mask_eq_exp_minus_1)

lemma unat_and_FF: "unat ((x :: 32 word) AND 0xFF) = unat x mod 256"
  by (simp add: and_FF unat_take)

lemma unat_le255: "(x :: 32 word) \<le> 255 \<Longrightarrow> unat x \<le> 255"
  by (simp add: word_le_nat_alt)

lemma unat_add_small:
  "unat (x :: 32 word) + unat y < 2 ^ 32 \<Longrightarrow> unat (x + y) = unat x + unat y"
  using unat_add_lem [of x y] by simp

lemma unat_mult_small:
  "unat (x :: 32 word) * unat y < 2 ^ 32 \<Longrightarrow> unat (x * y) = unat x * unat y"
  using unat_mult_lem [of x y] by simp

lemma unat_mult_byte:
  assumes "(x :: 32 word) \<le> 255" "(a :: 32 word) \<le> 255"
  shows "unat (x * a) = unat x * unat a" and "unat x * unat a \<le> 65025"
proof -
  have "unat x * unat a \<le> 255 * 255"
    using assms by (intro mult_le_mono unat_le255)
  then show b: "unat x * unat a \<le> 65025" by simp
  then show "unat (x * a) = unat x * unat a"
    by (intro unat_mult_small) simp
qed

subsection \<open>Saturating addition and subtraction\<close>

lemma sat_small:
  assumes "unat (w :: 32 word) < 256"
  shows "(w OR (0x0100 - (drop_bit 8 w AND 0x00FF))) AND 0xFF = w"
proof -
  have "unat (drop_bit 8 w) = 0" using assms by (simp add: unat_drop)
  then have d: "drop_bit 8 w = 0" by (simp add: unat_0_iff)
  have "take_bit 8 w = w" using assms
    by (simp add: word_unat_eq_iff unat_take)
  then show ?thesis by (simp add: d and_FF bit.conj_disj_distrib2)
qed

lemma sat_big:
  assumes "256 \<le> unat (w :: 32 word)" "unat w < 512"
  shows "(w OR (0x0100 - (drop_bit 8 w AND 0x00FF))) AND 0xFF = 255"
proof -
  have "unat (drop_bit 8 w) = 1" using assms by (simp add: unat_drop)
  then have d: "drop_bit 8 w = 1" by (simp add: word_unat_eq_iff)
  show ?thesis by (simp add: d bit.conj_disj_distrib2)
qed

lemma u32Addus_unat:
  assumes "x \<le> 255" "y \<le> 255"
  shows "unat (u32Addus x y) = min (unat x + unat y) 255"
proof -
  have b: "unat x + unat y < 512"
    using unat_le255 [OF assms(1)] unat_le255 [OF assms(2)] by simp
  then have s: "unat (x + y) = unat x + unat y"
    by (intro unat_add_small) simp
  show ?thesis
  proof (cases "unat (x + y) < 256")
    case True
    then show ?thesis using s by (simp add: u32Addus_def Let_def sat_small)
  next
    case False
    then show ?thesis using s b by (simp add: u32Addus_def Let_def sat_big)
  qed
qed

lemma u32Subus_unat:
  assumes "x \<le> 255" "y \<le> 255"
  shows "unat (u32Subus x y) = unat x - unat y"
proof (cases "unat y \<le> unat x")
  case True
  then have s: "unat (x - y) = unat x - unat y"
    by (simp add: unat_sub_if_size)
  then have b: "unat (x - y) < 256" using unat_le255 [OF assms(1)] by simp
  have "unat (drop_bit 24 (x - y)) = 0" using b by (simp add: unat_drop)
  then have d: "drop_bit 24 (x - y) = 0" by (simp add: unat_0_iff)
  have "take_bit 8 (x - y) = x - y" using b
    by (simp add: word_unat_eq_iff unat_take)
  then have "u32Subus x y = x - y"
    by (simp add: u32Subus_def Let_def d and_FF)
  then show ?thesis using s by simp
next
  case False
  then have s: "unat (x - y) = unat x + 2 ^ 32 - unat y"
    by (simp add: unat_sub_if_size word_size)
  have "unat (drop_bit 24 (x - y)) = 255"
    using False unat_le255 [OF assms(2)] by (simp add: unat_drop s)
  then have d: "drop_bit 24 (x - y) = 255" by (simp add: word_unat_eq_iff)
  have "u32Subus x y = 0"
    by (simp add: u32Subus_def Let_def d)
  then show ?thesis using False by simp
qed

text \<open>
  Claim C5.  For all channel values \<open>x\<close> and \<open>y\<close> in \<open>[0,255]\<close> the branch-free
  \<^const>\<open>u32Addus\<close> returns \<open>min (x + y) 255\<close> and the branch-free \<^const>\<open>u32Subus\<close>
  returns \<open>max (x - y) 0\<close>, both read as mathematical integers.
\<close>

theorem u32_saturating_ops_correct:
  assumes "x \<le> 255" "y \<le> 255"
  shows "uint (u32Addus x y) = min (uint x + uint y) 255 \<and>
         uint (u32Subus x y) = max (uint x - uint y) 0"
proof -
  have "uint (u32Addus x y) = int (min (unat x + unat y) 255)"
    by (simp only: uint_nat u32Addus_unat [OF assms])
  moreover have "uint (u32Subus x y) = int (unat x - unat y)"
    by (simp only: uint_nat u32Subus_unat [OF assms])
  moreover have "uint x = int (unat x)" "uint y = int (unat y)"
    by (rule uint_nat)+
  ultimately show ?thesis by (simp only:) linarith
qed

theorem u32_saturating_ops_correct_witness:
  "(200 :: 32 word) \<le> 255 \<and> (100 :: 32 word) \<le> 255 \<and>
   uint (u32Addus 200 100) = min (uint (200 :: 32 word) + uint (100 :: 32 word)) 255 \<and>
   uint (u32Subus 100 200) = max (uint (100 :: 32 word) - uint (200 :: 32 word)) 0"
  using u32_saturating_ops_correct [of 200 100] u32_saturating_ops_correct [of 100 200]
  by simp

subsection \<open>Division by 255\<close>

lemma div_bounds:
  "0 < d \<Longrightarrow> d * (n div d) \<le> n \<and> n < d * (n div d) + (d :: nat)"
  by (metis add.commute dividend_less_times_div mult.commute div_times_less_eq_dividend)

lemma round_div255_eq: "round_div255 v = int ((2 * v + 255) div 510)"
proof -
  have "real v / 255 + 1 / 2 = real (2 * v + 255) / real 510" by simp
  then have "round (real v / 255) = \<lfloor>real (2 * v + 255) / real 510\<rfloor>"
    by (simp only: round_def)
  also have "\<dots> = int ((2 * v + 255) div 510)"
    by (rule floor_divide_of_nat_eq)
  finally show ?thesis by (simp add: round_div255_def)
qed

lemma muldiv255_nat_identity:
  assumes "x \<le> 255"
  shows "(x * 255 + (x * 255) div 256 + 128) div 256 = (x :: nat)"
proof -
  define h where "h = (x * 255) div 256"
  define A where "A = (x * 255 + h + 128) div 256"
  have 1: "256 * h \<le> x * 255" "x * 255 < 256 * h + 256"
    using div_bounds [of 256 "x * 255"] by (simp_all add: h_def)
  have 2: "256 * A \<le> x * 255 + h + 128" "x * 255 + h + 128 < 256 * A + 256"
    using div_bounds [of 256 "x * 255 + h + 128"] by (simp_all add: A_def)
  have "A = x" using 1 2 assms by linarith
  then show ?thesis by (simp add: A_def h_def)
qed

lemma muldiv255_nat_error:
  assumes "t \<le> 65025"
  shows "\<bar>int ((t + t div 256 + 128) div 256) - int ((2 * t + 255) div 510)\<bar> \<le> 1"
proof -
  define h where "h = t div 256"
  define A where "A = (t + h + 128) div 256"
  define R where "R = (2 * t + 255) div 510"
  have 1: "256 * h \<le> t" "t < 256 * h + 256"
    using div_bounds [of 256 t] by (simp_all add: h_def)
  have 2: "256 * A \<le> t + h + 128" "t + h + 128 < 256 * A + 256"
    using div_bounds [of 256 "t + h + 128"] by (simp_all add: A_def)
  have 3: "510 * R \<le> 2 * t + 255" "2 * t + 255 < 510 * R + 510"
    using div_bounds [of 510 "2 * t + 255"] by (simp_all add: R_def)
  have "A \<le> R + 1" "R \<le> A + 1" using 1 2 3 assms by linarith+
  then show ?thesis
    unfolding h_def [symmetric] A_def [symmetric] R_def [symmetric] by linarith
qed

lemma div255_nat_floor:
  assumes "v < 65535"
  shows "(v * 256 + (v + 256)) div 65536 = v div (255 :: nat)"
proof -
  define q where "q = v div 255"
  define A where "A = (v * 256 + (v + 256)) div 65536"
  have 1: "255 * q \<le> v" "v < 255 * q + 255"
    using div_bounds [of 255 v] by (simp_all add: q_def)
  have 2: "65536 * A \<le> v * 256 + (v + 256)" "v * 256 + (v + 256) < 65536 * A + 65536"
    using div_bounds [of 65536 "v * 256 + (v + 256)"] by (simp_all add: A_def)
  have "A = q" using 1 2 assms by linarith
  then show ?thesis by (simp add: A_def q_def)
qed

lemma u32MulDiv255_unat:
  assumes "x \<le> 255" "a \<le> 255"
  shows "unat (u32MulDiv255 x a) =
         (unat x * unat a + unat x * unat a div 256 + 128) div 256"
proof -
  define t where "t = unat x * unat a"
  have t: "unat (x * a) = t" "t \<le> 65025"
    using unat_mult_byte [OF assms] by (simp_all add: t_def)
  have d: "unat (drop_bit 8 (x * a)) = t div 256"
    by (simp add: unat_drop t)
  have "unat (x * a + drop_bit 8 (x * a)) = t + t div 256"
    using t d by (intro unat_add_small [THEN trans]) simp_all
  moreover have "unat (128 :: 32 word) = 128" by simp
  ultimately have "unat (x * a + drop_bit 8 (x * a) + 0x80) = t + t div 256 + 128"
    using t by (intro unat_add_small [THEN trans]) simp_all
  then show ?thesis
    by (simp add: u32MulDiv255_def Let_def unat_drop t_def)
qed

lemma u32Div255_unat:
  assumes "unat v \<le> 65535"
  shows "unat (u32Div255 v) = (unat v * 256 + (unat v + 256)) div 65536"
proof -
  have 1: "unat (push_bit 8 v) = unat v * 256"
    using assms unat_mult_small [of v 256] by (simp add: push_bit_eq_mult)
  have 2: "unat (v + 256) = unat v + 256"
    using assms unat_add_small [of v 256] by simp
  have "unat (push_bit 8 v + (v + 256)) = unat v * 256 + (unat v + 256)"
    using assms 1 2 by (intro unat_add_small [THEN trans]) simp_all
  then show ?thesis by (simp add: u32Div255_def unat_drop)
qed

text \<open>
  Claim C9.  For every channel value \<open>x\<close> in \<open>[0,255]\<close>, \<^const>\<open>u32MulDiv255\<close> with
  weight 255 returns \<open>x\<close> and with weight 0 returns 0.
\<close>

theorem u32MulDiv255_identity_and_zero:
  assumes "x \<le> 255"
  shows "u32MulDiv255 x 255 = x \<and> u32MulDiv255 x 0 = 0"
proof
  have "unat (u32MulDiv255 x 255) = unat x"
    using u32MulDiv255_unat [OF assms, of 255]
      muldiv255_nat_identity [OF unat_le255 [OF assms]]
    by simp
  then show "u32MulDiv255 x 255 = x" by (simp only: word_unat_eq_iff)
  show "u32MulDiv255 x 0 = 0" by (simp add: u32MulDiv255_def)
qed

theorem u32MulDiv255_identity_and_zero_witness:
  "(77 :: 32 word) \<le> 255 \<and> u32MulDiv255 77 255 = 77 \<and> u32MulDiv255 77 0 = 0"
  using u32MulDiv255_identity_and_zero [of 77] by simp

text \<open>
  Claim C8.  For all \<open>x\<close> and \<open>a\<close> in \<open>[0,255]\<close>, the value of \<^const>\<open>u32MulDiv255\<close>
  differs from the rounded quotient \<open>round (x * a / 255)\<close> by at most 1.
\<close>

theorem u32MulDiv255_error_bound:
  assumes "x \<le> 255" "a \<le> 255"
  shows "\<bar>uint (u32MulDiv255 x a) - round_div255 (unat x * unat a)\<bar> \<le> 1"
proof -
  have "unat x * unat a \<le> 65025" by (rule unat_mult_byte(2) [OF assms])
  from muldiv255_nat_error [OF this] show ?thesis
    by (simp only: uint_nat u32MulDiv255_unat [OF assms] round_div255_eq)
qed

theorem u32MulDiv255_error_bound_witness:
  "(200 :: 32 word) \<le> 255 \<and> (100 :: 32 word) \<le> 255 \<and>
   \<bar>uint (u32MulDiv255 200 100) - round_div255 (unat (200 :: 32 word) * unat (100 :: 32 word))\<bar> \<le> 1"
  using u32MulDiv255_error_bound [of 200 100] by simp

text \<open>
  Claim C3, as stated: for every 16-bit \<open>v\<close>, \<^const>\<open>u32Div255\<close> returns
  \<open>round (v / 255)\<close>.  It fails at \<open>v = 128\<close>: the code returns 0, the rounded
  quotient is 1.
\<close>

theorem u32Div255_not_rounding:
  "unat (128 :: 32 word) \<le> 65535 \<and> uint (u32Div255 128) = 0 \<and>
   round_div255 (unat (128 :: 32 word)) = 1 \<and>
   uint (u32Div255 128) \<noteq> round_div255 (unat (128 :: 32 word))"
  by (simp add: u32Div255_def round_div255_eq)

text \<open>
  Claim C3, amended: for every \<open>v\<close> with \<open>0 \<le> v \<le> 65534\<close>, \<^const>\<open>u32Div255\<close>
  returns the truncated quotient \<open>v div 255\<close>.
\<close>

theorem u32Div255_truncates:
  assumes "unat v \<le> 65534"
  shows "unat (u32Div255 v) = unat v div 255"
proof -
  have "unat (u32Div255 v) = (unat v * 256 + (unat v + 256)) div 65536"
    using assms by (intro u32Div255_unat) simp
  also have "\<dots> = unat v div 255"
    using assms by (intro div255_nat_floor) simp
  finally show ?thesis .
qed

theorem u32Div255_truncates_witness:
  "unat (1000 :: 32 word) \<le> 65534 \<and> unat (u32Div255 1000) = unat (1000 :: 32 word) div 255"
  using u32Div255_truncates [of 1000] by simp

section \<open>Theorems: packing layer and packed-channel arithmetic\<close>

subsection \<open>Bits of the lane masks\<close>

lemma M_eq: "(0x00FF00FF :: 32 word) = mask 8 OR push_bit 16 (mask 8)"
  by (simp add: mask_eq_exp_minus_1 push_bit_eq_mult)

lemma N_eq: "(0xFF00FF00 :: 32 word) = push_bit 8 (mask 8) OR push_bit 24 (mask 8)"
  by (simp add: mask_eq_exp_minus_1 push_bit_eq_mult)

lemma M64_eq:
  "(0x00FF00FF00FF00FF :: 64 word) =
     mask 8 OR push_bit 16 (mask 8) OR push_bit 32 (mask 8) OR push_bit 48 (mask 8)"
  by (simp add: mask_eq_exp_minus_1 push_bit_eq_mult)

lemma bit_BYTE1x2MASK: "bit BYTE1x2MASK n \<longleftrightarrow> n < 8 \<or> (16 \<le> n \<and> n < 24)"
  unfolding BYTE1x2MASK_def M_eq by (auto simp add: bit_simps)

lemma bit_headroom_mask:
  "bit headroom_mask n \<longleftrightarrow> (8 \<le> n \<and> n < 16) \<or> (24 \<le> n \<and> n < 32)"
  unfolding headroom_mask_def N_eq by (auto simp add: bit_simps)

lemma bit_BYTE_1x4MASK:
  "bit BYTE_1x4MASK n \<longleftrightarrow>
     n < 8 \<or> (16 \<le> n \<and> n < 24) \<or> (32 \<le> n \<and> n < 40) \<or> (48 \<le> n \<and> n < 56)"
  unfolding BYTE_1x4MASK_def M64_eq by (auto simp add: bit_simps)

lemmas bit_masks = bit_BYTE1x2MASK bit_headroom_mask bit_BYTE_1x4MASK


lemma le255_iff_take_bit: "(x :: 32 word) \<le> 255 \<longleftrightarrow> take_bit 8 x = x"
proof -
  have "take_bit 8 x = x \<longleftrightarrow> unat x mod 256 = unat x"
    by (simp add: word_unat_eq_iff unat_take)
  also have "\<dots> \<longleftrightarrow> unat x < 256"
    using mod_less_divisor [of 256 "unat x"] by auto
  finally show ?thesis by (auto simp add: word_le_nat_alt)
qed

lemma le255_iff_bits: "(x :: 32 word) \<le> 255 \<longleftrightarrow> (\<forall>n. bit x n \<longrightarrow> n < 8)"
proof -
  have "take_bit 8 x = x \<longleftrightarrow> (\<forall>n<32. bit x n \<longrightarrow> n < 8)"
    by (auto simp add: bit_eq_iff bit_simps)
  also have "\<dots> \<longleftrightarrow> (\<forall>n. bit x n \<longrightarrow> n < 8)"
    using bit_imp_le_length [of x] by fastforce
  finally show ?thesis by (simp only: le255_iff_take_bit)
qed

lemma lanes_ok_bits:
  "lanes_ok w \<longleftrightarrow> (\<forall>n. bit w n \<longrightarrow> n < 8 \<or> (16 \<le> n \<and> n < 24))"
proof
  assume "lanes_ok w"
  then have lo: "\<And>n. n < 16 \<Longrightarrow> bit w n \<Longrightarrow> n < 8"
    and hi: "\<And>n. bit w (16 + n) \<Longrightarrow> n < 8"
    by (auto simp add: lanes_ok_def b32_lane0_def b32_lane1_def le255_iff_bits bit_simps)
  show "\<forall>n. bit w n \<longrightarrow> n < 8 \<or> (16 \<le> n \<and> n < 24)"
  proof (intro allI impI)
    fix n assume b: "bit w n"
    show "n < 8 \<or> (16 \<le> n \<and> n < 24)"
    proof (cases "n < 16")
      case True then show ?thesis using lo b by blast
    next
      case False
      then have "bit w (16 + (n - 16))" using b by simp
      then have "n - 16 < 8" by (rule hi)
      then show ?thesis using False by simp
    qed
  qed
next
  assume "\<forall>n. bit w n \<longrightarrow> n < 8 \<or> (16 \<le> n \<and> n < 24)"
  then show "lanes_ok w"
    by (fastforce simp add: lanes_ok_def b32_lane0_def b32_lane1_def le255_iff_bits bit_simps)
qed

lemma mask_bits: "w AND headroom_mask = 0 \<longleftrightarrow> (\<forall>n. bit w n \<longrightarrow> n < 8 \<or> (16 \<le> n \<and> n < 24))"
proof -
  have "w AND headroom_mask = 0 \<longleftrightarrow> (\<forall>n<32. bit w n \<longrightarrow> (n < 8 \<or> 16 \<le> n) \<and> n < 24)"
    by (auto simp add: bit_eq_iff bit_simps bit_masks not_le not_less)
  also have "\<dots> \<longleftrightarrow> (\<forall>n. bit w n \<longrightarrow> n < 8 \<or> (16 \<le> n \<and> n < 24))"
    using bit_imp_le_length [of w] by fastforce
  finally show ?thesis .
qed

lemma lanes_ok_mask: "lanes_ok w \<longleftrightarrow> w AND headroom_mask = 0"
  by (simp only: lanes_ok_bits mask_bits)

lemma lanes_ok_and_mask [simp]: "lanes_ok (w AND BYTE1x2MASK)"
  by (auto simp add: lanes_ok_bits bit_simps bit_masks)

lemma lanes_ok_and_mask_lit [simp]: "lanes_ok (w AND 0x00FF00FF)"
  using lanes_ok_and_mask [of w] by (simp add: BYTE1x2MASK_def)

lemma lanes_ok_xor_mask: "lanes_ok w \<Longrightarrow> lanes_ok (w XOR BYTE1x2MASK)"
  by (auto simp add: lanes_ok_bits bit_simps bit_masks)

lemma lanes_ok_or: "lanes_ok (x OR y) \<longleftrightarrow> lanes_ok x \<and> lanes_ok y"
  by (auto simp add: lanes_ok_bits bit_simps)

lemma lanes_ok_le255: "x \<le> 255 \<Longrightarrow> lanes_ok x"
  by (auto simp add: lanes_ok_bits le255_iff_bits)

lemma lanes_ok_push16: "x \<le> 255 \<Longrightarrow> lanes_ok (push_bit 16 x)"
  by (auto simp add: lanes_ok_bits le255_iff_bits bit_simps)

lemma lanes_ok_and_FF [simp]: "lanes_ok (w AND 0xFF)"
  by (rule lanes_ok_le255) (simp add: and_FF le255_iff_take_bit)

lemma FF0000_eq: "(0x00FF0000 :: 32 word) = push_bit 16 (mask 8)"
  by (simp add: mask_eq_exp_minus_1 push_bit_eq_mult)

lemma lanes_ok_and_FF0000 [simp]: "lanes_ok (w AND 0x00FF0000)"
  unfolding FF0000_eq by (auto simp add: lanes_ok_bits bit_simps)

lemma lanes_ok_lane_values:
  "lanes_ok w \<Longrightarrow> b32_1x2GetB0 w \<le> 255 \<and> b32_1x2GetB1 w \<le> 255"
  by (simp add: lanes_ok_def b32_lane1_def b32_1x2GetB1_def b32_1x2GetB0_def and_FF le255_iff_take_bit)

lemma lanes_ok_Saturate [simp]: "lanes_ok (b32_1x2Saturate d)"
  by (simp add: b32_1x2Saturate_def Let_def)

lemma lanes_ok_AddusB32 [simp]: "lanes_ok (b32_1x2AddusB32_1x2 a b)"
  by (simp add: b32_1x2AddusB32_1x2_def)

lemma lanes_ok_SubusB32: "lanes_ok (b32_1x2SubusB32_1x2 a b)"
  by (simp add: b32_1x2SubusB32_1x2_def lanes_ok_xor_mask)

lemma lanes_ok_MulDiv255U [simp]: "lanes_ok (b32_1x2MulDiv255U a u)"
  by (simp add: b32_1x2MulDiv255U_def Let_def)

lemma lanes_ok_MinU: "u \<le> 255 \<Longrightarrow> lanes_ok (b32_1x2MinU a0 u)"
  by (simp add: b32_1x2MinU_def Let_def lanes_ok_or lanes_ok_le255 lanes_ok_push16)

lemma lanes_ok_MaxU: "u \<le> 255 \<Longrightarrow> lanes_ok (b32_1x2MaxU a0 u)"
  by (simp add: b32_1x2MaxU_def Let_def lanes_ok_or lanes_ok_le255 lanes_ok_push16)

lemma lanes_ok_MinB32: "lanes_ok (b32_1x2MinB32_1x2 a0 b0)"
  by (simp add: b32_1x2MinB32_1x2_def Let_def lanes_ok_or)
lemma lanes_ok_MaxB32: "lanes_ok (b32_1x2MaxB32_1x2 a0 b0)"
  by (simp add: b32_1x2MaxB32_1x2_def Let_def lanes_ok_or)

lemma lanes_ok_Negate: "lanes_ok a \<Longrightarrow> lanes_ok (b32_1x2Negate a)"
  using lanes_ok_xor_mask[of a] by (simp add: b32_1x2Negate_def BYTE1x2MASK_def)

lemma lanes_ok_xor: "lanes_ok a \<Longrightarrow> lanes_ok b \<Longrightarrow> lanes_ok (a XOR b)"
  by (auto simp add: lanes_ok_bits bit_simps)

lemma lanes_ok_Negate_B0: "lanes_ok a \<Longrightarrow> lanes_ok (b32_1x2Negate_B0 a)"
  by (simp add: b32_1x2Negate_B0_def lanes_ok_xor lanes_ok_le255)

lemma lanes_ok_Negate_B1: "lanes_ok a \<Longrightarrow> lanes_ok (b32_1x2Negate_B1 a)"
  using lanes_ok_push16[of 255] by (simp add: b32_1x2Negate_B1_def lanes_ok_xor push_bit_eq_mult)

lemma div_le255_nat:
  assumes "t \<le> 65025" shows "(t + t div 256 + 128) div 256 \<le> (255 :: nat)"
proof -
  define h where "h = t div 256"
  define A where "A = (t + h + 128) div 256"
  have 1: "256 * h \<le> t" using div_bounds [of 256 t] by (simp add: h_def)
  have 2: "256 * A \<le> t + h + 128" using div_bounds [of 256 "t + h + 128"] by (simp add: A_def)
  have "A \<le> 255" using 1 2 assms by linarith
  then show ?thesis by (simp add: A_def h_def)
qed

lemma u32MulDiv255_le255:
  assumes "x \<le> 255" "a \<le> 255"
  shows "u32MulDiv255 x a \<le> 255"
  using div_le255_nat [OF unat_mult_byte(2) [OF assms]]
  by (simp add: word_le_nat_alt u32MulDiv255_unat [OF assms])

lemma lanes_ok_AddusU: "lanes_ok (b32_1x2AddusU a u)"
  by (simp add: b32_1x2AddusU_def Let_def)

lemma lanes_ok_SubusU: "lanes_ok (b32_1x2SubusU a u)"
  by (simp add: b32_1x2SubusU_def Let_def lanes_ok_xor_mask)

lemma lanes_ok_AddSubusB32: "lanes_ok (b32_1x2AddSubusB32_1x2 a b c)"
  by (simp add: b32_1x2AddSubusB32_1x2_def Let_def)

lemma lanes_ok_MulDiv256U: "lanes_ok (b32_1x2MulDiv256U a u)"
  by (simp add: b32_1x2MulDiv256U_def)

lemma lanes_ok_MulDiv255B32: "lanes_ok (b32_1x2MulDiv255B32_1x2 a b)"
  by (simp add: b32_1x2MulDiv255B32_1x2_def Let_def)

lemma lanes_ok_MulDiv255U_AddusB32: "lanes_ok (b32_1x2MulDiv255U_AddusB32_1x2 a u c)"
  by (simp add: b32_1x2MulDiv255U_AddusB32_1x2_def Let_def)

lemma lanes_ok_MulDiv255B32_AddusB32: "lanes_ok (b32_1x2MulDiv255B32_1x2_AddusB32_1x2 a b c)"
  by (simp add: b32_1x2MulDiv255B32_1x2_AddusB32_1x2_def Let_def)

lemma lanes_ok_MulDiv255U_2x_Add: "lanes_ok (b32_1x2MulDiv255U_2x_Add a u b v)"
  by (simp add: b32_1x2MulDiv255U_2x_Add_def Let_def)

lemma lanes_ok_MulDiv255U_2x_Addus: "lanes_ok (b32_1x2MulDiv255U_2x_Addus a u b v)"
  by (simp add: b32_1x2MulDiv255U_2x_Addus_def Let_def)

lemma PremultiplyU_snd:
  "snd (b32_2x2PremultiplyU a0 a1 u) = u32MulDiv255 (a1 AND 0xFF) u OR push_bit 16 u"
  by (simp add: b32_2x2PremultiplyU_def u32MulDiv255_def Let_def BYTE1x1HALF_def)

lemma and_FF_le255: "(w :: 32 word) AND 0xFF \<le> 255"
  by (simp add: and_FF le255_iff_take_bit)

lemma lanes_ok_PremultiplyU:
  assumes "u \<le> 255"
  shows "lanes_ok (fst (b32_2x2PremultiplyU a0 a1 u))"
    and "lanes_ok (snd (b32_2x2PremultiplyU a0 a1 u))"
proof -
  show "lanes_ok (fst (b32_2x2PremultiplyU a0 a1 u))"
    by (simp add: b32_2x2PremultiplyU_def Let_def)
  show "lanes_ok (snd (b32_2x2PremultiplyU a0 a1 u))"
    unfolding PremultiplyU_snd lanes_ok_or
    using assms by (intro conjI lanes_ok_le255 lanes_ok_push16 u32MulDiv255_le255 and_FF_le255)
qed

lemma lanes_ok_PremultiplyA:
  assumes "lanes_ok a1"
  shows "lanes_ok (fst (b32_2x2PremultiplyA a0 a1))"
    and "lanes_ok (snd (b32_2x2PremultiplyA a0 a1))"
  using lanes_ok_lane_values [OF assms]
  by (simp_all add: b32_2x2PremultiplyA_def lanes_ok_PremultiplyU)

lemma lanes_ok_InterpolateU255:
  "lanes_ok (fst (b32_2x2InterpolateU255 a0 b0 c0 d0 a1 b1 c1 d1))"
  "lanes_ok (snd (b32_2x2InterpolateU255 a0 b0 c0 d0 a1 b1 c1 d1))"
  by (simp_all add: b32_2x2InterpolateU255_def Let_def)

lemma lanes_ok_InterpolateU256:
  "lanes_ok (fst (b32_2x2InterpolateU256 a0 b0 c0 d0 a1 b1 c1 d1))"
  "lanes_ok (snd (b32_2x2InterpolateU256 a0 b0 c0 d0 a1 b1 c1 d1))"
  by (simp_all add: b32_2x2InterpolateU256_def Let_def)

subsection \<open>Headroom invariant\<close>

text \<open>
  Claim C10.  For all widened inputs with both lanes in \<open>[0,255]\<close> and every scalar
  \<open>u\<close> in \<open>[0,255]\<close>, the results of \<^const>\<open>b32_1x2AddusB32_1x2\<close>,
  \<^const>\<open>b32_1x2SubusB32_1x2\<close> and \<^const>\<open>b32_1x2MulDiv255U\<close> have both 16-bit lanes in
  \<open>[0,255]\<close>, with the upper 8 bits of each lane zero.
\<close>

theorem saturating_and_muldiv_restore_headroom:
  assumes "lanes_ok a0" "lanes_ok b0" "u \<le> 255"
  shows "(b32_lane0 (b32_1x2AddusB32_1x2 a0 b0) \<le> 255 \<and>
          b32_lane1 (b32_1x2AddusB32_1x2 a0 b0) \<le> 255 \<and>
          b32_1x2AddusB32_1x2 a0 b0 AND 0xFF00FF00 = 0) \<and>
         (b32_lane0 (b32_1x2SubusB32_1x2 a0 b0) \<le> 255 \<and>
          b32_lane1 (b32_1x2SubusB32_1x2 a0 b0) \<le> 255 \<and>
          b32_1x2SubusB32_1x2 a0 b0 AND 0xFF00FF00 = 0) \<and>
         (b32_lane0 (b32_1x2MulDiv255U a0 u) \<le> 255 \<and>
          b32_lane1 (b32_1x2MulDiv255U a0 u) \<le> 255 \<and>
          b32_1x2MulDiv255U a0 u AND 0xFF00FF00 = 0)"
proof -
  have *: "b32_lane0 r \<le> 255 \<and> b32_lane1 r \<le> 255 \<and> r AND 0xFF00FF00 = 0"
    if "lanes_ok r" for r
    using that lanes_ok_mask [of r] by (simp add: lanes_ok_def headroom_mask_def)
  show ?thesis
    by (intro conjI * [THEN conjunct1] * [THEN conjunct2, THEN conjunct1]
        * [THEN conjunct2, THEN conjunct2] lanes_ok_AddusB32 lanes_ok_SubusB32 lanes_ok_MulDiv255U)
qed

theorem saturating_and_muldiv_restore_headroom_witness:
  "lanes_ok 0x00FF0080 \<and> lanes_ok 0x00010090 \<and> (200 :: 32 word) \<le> 255 \<and>
   (b32_lane0 (b32_1x2AddusB32_1x2 0x00FF0080 0x00010090) \<le> 255 \<and>
          b32_lane1 (b32_1x2AddusB32_1x2 0x00FF0080 0x00010090) \<le> 255 \<and>
          b32_1x2AddusB32_1x2 0x00FF0080 0x00010090 AND 0xFF00FF00 = 0) \<and>
         (b32_lane0 (b32_1x2SubusB32_1x2 0x00FF0080 0x00010090) \<le> 255 \<and>
          b32_lane1 (b32_1x2SubusB32_1x2 0x00FF0080 0x00010090) \<le> 255 \<and>
          b32_1x2SubusB32_1x2 0x00FF0080 0x00010090 AND 0xFF00FF00 = 0) \<and>
         (b32_lane0 (b32_1x2MulDiv255U 0x00FF0080 200) \<le> 255 \<and>
          b32_lane1 (b32_1x2MulDiv255U 0x00FF0080 200) \<le> 255 \<and>
          b32_1x2MulDiv255U 0x00FF0080 200 AND 0xFF00FF00 = 0)"
proof -
  have h: "lanes_ok 0x00FF0080" "lanes_ok 0x00010090" "(200 :: 32 word) \<le> 255"
    by (simp_all add: lanes_ok_def b32_lane0_def b32_lane1_def)
  from saturating_and_muldiv_restore_headroom [OF h] h show ?thesis by blast
qed

text \<open>
  Claim C2, as stated: every packed-channel operation of section 4.3, the raw add
  among them, maps inputs with lanes in \<open>[0,255]\<close> to an output with lanes in
  \<open>[0,255]\<close>.  The raw add \<^const>\<open>b32_1x2AddB32_1x2\<close> breaks it: lanes 255 plus lanes 1
  give lanes 256.
\<close>

theorem raw_add_breaks_headroom:
  "lanes_ok 0x00FF00FF \<and> lanes_ok 0x00010001 \<and> \<not> lanes_ok (b32_1x2AddB32_1x2 0x00FF00FF 0x00010001)"
  by (simp add: lanes_ok_def b32_lane0_def b32_lane1_def b32_1x2AddB32_1x2_def)

text \<open>
  The other unsaturated forms (sub, addSub, mulByScalar, the shifts) leave the
  headroom as well.
\<close>

lemma raw_forms_break_headroom:
  "lanes_ok 0 \<and> lanes_ok 1 \<and> \<not> lanes_ok (b32_1x2SubB32_1x2 0 1)"
  "lanes_ok 0x00FF00FF \<and> (2 :: 32 word) \<le> 255 \<and> \<not> lanes_ok (b32_1x2MulU 0x00FF00FF 2)"
  "lanes_ok 0x00FF00FF \<and> \<not> lanes_ok (b32_1x2ShiftLeft1 0x00FF00FF)"
  "lanes_ok 0x00FF00FF \<and> b32_1x2ShiftRightU 0x00FF00FF 4 = Some 0x000FF00F \<and> \<not> lanes_ok 0x000FF00F"
  "lanes_ok 0x00FF00FF \<and> b32_1x2ShiftLeftU 0x00FF00FF 4 = Some 0x0FF00FF0 \<and> \<not> lanes_ok 0x0FF00FF0"
  "lanes_ok 0x00FF00FF \<and> \<not> lanes_ok (b32_1x2AddSubB32_1x2 0x00FF00FF 0x00FF00FF 0)"
  "lanes_ok 0x00FF00FF \<and> (1 :: 32 word) \<le> 255 \<and> \<not> lanes_ok (b32_1x2AddU 0x00FF00FF 1)"
  "lanes_ok 0 \<and> (1 :: 32 word) \<le> 255 \<and> \<not> lanes_ok (b32_1x2SubU 0 1)"
  "lanes_ok 0x00FF00FF \<and>
   \<not> lanes_ok (b32_1x2MulDiv255B32_1x2_AddB32_1x2 0x00FF00FF 0x00FF00FF 0x00FF00FF)"
  "lanes_ok 0x00FF00FF \<and> \<not> lanes_ok (b32_1x2ShiftLeft1_B0 0x00FF00FF)"
  "lanes_ok 0x00FF00FF \<and> \<not> lanes_ok (b32_1x2ShiftLeft1_B1 0x00FF00FF)"
  by (simp_all add: lanes_ok_def b32_lane0_def b32_lane1_def b32_1x2SubB32_1x2_def
      b32_1x2MulU_def b32_1x2ShiftLeft1_def b32_1x2ShiftRightU_def b32_1x2ShiftLeftU_def
      b32_1x2AddSubB32_1x2_def b32_1x2AddU_def b32_1x2SubU_def b32_1x2ExtendB0_def
      b32_1x2MulDiv255B32_1x2_AddB32_1x2_def b32_1x2MulDiv255B32_1x2_def
      b32_1x2AddB32_1x2_def b32_1x2ShiftLeft1_B0_def b32_1x2ShiftLeft1_B1_def
      byte_consts mask_eq_exp_minus_1)

text \<open>
  Claim C2, amended: for the packed-channel operations that end in a saturation, a
  masked division, a lane-wise selection or a lane-mask XOR (saturating add, sub and
  addSub; the mulDiv255 and mulDiv256 forms without a trailing raw add; min; max;
  negate; premultiply; interpolate), inputs with every lane in \<open>[0,255]\<close> and
  scalars in their documented range give outputs with every lane in \<open>[0,255]\<close>.
\<close>

theorem masked_ops_restore_headroom:
  assumes "lanes_ok a" "lanes_ok b" "lanes_ok c" "u \<le> 255" "v \<le> 255" "w \<le> 256" "z \<le> 256"
  shows
    "lanes_ok (b32_1x2AddusB32_1x2 a b) \<and>
     lanes_ok (b32_1x2AddusU a u) \<and>
     lanes_ok (b32_1x2SubusB32_1x2 a b) \<and>
     lanes_ok (b32_1x2SubusU a u) \<and>
     lanes_ok (b32_1x2AddSubusB32_1x2 a b c) \<and>
     lanes_ok (b32_1x2MulDiv255U a u) \<and>
     lanes_ok (b32_1x2MulDiv256U a w) \<and>
     lanes_ok (b32_1x2MulDiv255B32_1x2 a b) \<and>
     lanes_ok (b32_1x2MulDiv255U_AddusB32_1x2 a u c) \<and>
     lanes_ok (b32_1x2MulDiv255B32_1x2_AddusB32_1x2 a b c) \<and>
     lanes_ok (b32_1x2MulDiv255U_2x_Add a u b v) \<and>
     lanes_ok (b32_1x2MulDiv255U_2x_Addus a u b v) \<and>
     lanes_ok (b32_1x2MinU a u) \<and>
     lanes_ok (b32_1x2MinB32_1x2 a b) \<and>
     lanes_ok (b32_1x2MaxU a u) \<and>
     lanes_ok (b32_1x2MaxB32_1x2 a b) \<and>
     lanes_ok (b32_1x2Negate a) \<and>
     lanes_ok (b32_1x2Negate_B0 a) \<and>
     lanes_ok (b32_1x2Negate_B1 a) \<and>
     lanes_ok (fst (b32_2x2PremultiplyU a b u)) \<and>
     lanes_ok (snd (b32_2x2PremultiplyU a b u)) \<and>
     lanes_ok (fst (b32_2x2PremultiplyA a b)) \<and>
     lanes_ok (snd (b32_2x2PremultiplyA a b)) \<and>
     lanes_ok (fst (b32_2x2InterpolateU255 a u b v b u c v)) \<and>
     lanes_ok (snd (b32_2x2InterpolateU255 a u b v b u c v)) \<and>
     lanes_ok (fst (b32_2x2InterpolateU256 a w b z b w c z)) \<and>
     lanes_ok (snd (b32_2x2InterpolateU256 a w b z b w c z))"
  using assms
  by (intro conjI lanes_ok_AddusB32 lanes_ok_AddusU lanes_ok_SubusB32 lanes_ok_SubusU
      lanes_ok_AddSubusB32 lanes_ok_MulDiv255U lanes_ok_MulDiv256U lanes_ok_MulDiv255B32
      lanes_ok_MulDiv255U_AddusB32 lanes_ok_MulDiv255B32_AddusB32 lanes_ok_MulDiv255U_2x_Add
      lanes_ok_MulDiv255U_2x_Addus lanes_ok_MinU lanes_ok_MinB32 lanes_ok_MaxU lanes_ok_MaxB32
      lanes_ok_Negate lanes_ok_Negate_B0 lanes_ok_Negate_B1 lanes_ok_PremultiplyU
      lanes_ok_PremultiplyA lanes_ok_InterpolateU255 lanes_ok_InterpolateU256)

theorem masked_ops_restore_headroom_witness:
  "lanes_ok 0x00FF0080 \<and> lanes_ok 0x00010090 \<and> lanes_ok 0x00400020 \<and>
   (200 :: 32 word) \<le> 255 \<and> (55 :: 32 word) \<le> 255 \<and>
   (256 :: 32 word) \<le> 256 \<and> (0 :: 32 word) \<le> 256 \<and>
   lanes_ok (b32_1x2AddusB32_1x2 0x00FF0080 0x00010090) \<and>
   lanes_ok (b32_1x2AddusU 0x00FF0080 200) \<and>
   lanes_ok (b32_1x2SubusB32_1x2 0x00FF0080 0x00010090) \<and>
   lanes_ok (b32_1x2SubusU 0x00FF0080 200) \<and>
   lanes_ok (b32_1x2AddSubusB32_1x2 0x00FF0080 0x00010090 0x00400020) \<and>
   lanes_ok (b32_1x2MulDiv255U 0x00FF0080 200) \<and>
   lanes_ok (b32_1x2MulDiv256U 0x00FF0080 256) \<and>
   lanes_ok (b32_1x2MulDiv255B32_1x2 0x00FF0080 0x00010090) \<and>
   lanes_ok (b32_1x2MulDiv255U_AddusB32_1x2 0x00FF0080 200 0x00400020) \<and>
   lanes_ok (b32_1x2MulDiv255B32_1x2_AddusB32_1x2 0x00FF0080 0x00010090 0x00400020) \<and>
   lanes_ok (b32_1x2MulDiv255U_2x_Add 0x00FF0080 200 0x00010090 55) \<and>
   lanes_ok (b32_1x2MulDiv255U_2x_Addus 0x00FF0080 200 0x00010090 55) \<and>
   lanes_ok (b32_1x2MinU 0x00FF0080 200) \<and>
   lanes_ok (b32_1x2MinB32_1x2 0x00FF0080 0x00010090) \<and>
   lanes_ok (b32_1x2MaxU 0x00FF0080 200) \<and>
   lanes_ok (b32_1x2MaxB32_1x2 0x00FF0080 0x00010090) \<and>
   lanes_ok (b32_1x2Negate 0x00FF0080) \<and>
   lanes_ok (b32_1x2Negate_B0 0x00FF0080) \<and>
   lanes_ok (b32_1x2Negate_B1 0x00FF0080) \<and>
   lanes_ok (fst (b32_2x2PremultiplyU 0x00FF0080 0x00010090 200)) \<and>
   lanes_ok (snd (b32_2x2PremultiplyU 0x00FF0080 0x00010090 200)) \<and>
   lanes_ok (fst (b32_2x2PremultiplyA 0x00FF0080 0x00010090)) \<and>
   lanes_ok (snd (b32_2x2PremultiplyA 0x00FF0080 0x00010090)) \<and>
   lanes_ok (fst (b32_2x2InterpolateU255 0x00FF0080 200 0x00010090 55 0x00010090 200 0x00400020 55)) \<and>
   lanes_ok (snd (b32_2x2InterpolateU255 0x00FF0080 200 0x00010090 55 0x00010090 200 0x00400020 55)) \<and>
   lanes_ok (fst (b32_2x2InterpolateU256 0x00FF0080 256 0x00010090 0 0x00010090 256 0x00400020 0)) \<and>
   lanes_ok (snd (b32_2x2InterpolateU256 0x00FF0080 256 0x00010090 0 0x00010090 256 0x00400020 0))"
proof -
  have h: "lanes_ok 0x00FF0080" "lanes_ok 0x00010090" "lanes_ok 0x00400020"
    "(200 :: 32 word) \<le> 255" "(55 :: 32 word) \<le> 255"
    "(256 :: 32 word) \<le> 256" "(0 :: 32 word) \<le> 256"
    by (simp_all add: lanes_ok_def b32_lane0_def b32_lane1_def)
  from masked_ops_restore_headroom [OF h] h show ?thesis by blast
qed

subsection \<open>1x and 2x forms\<close>

text \<open>
  Claim C1.  The 2x form of an operation applies the 1x form to each word.  Two 2x
  forms of the source do not: \<^const>\<open>b32_2x2AddSubB32_2x2\<close> and
  \<^const>\<open>b32_2x2MulDiv256U\<close> store the second word's result in \<^verbatim>\<open>dst0\<close> and leave
  \<^verbatim>\<open>dst1\<close> as it was.  With \<^verbatim>\<open>dst1 = 0\<close> before the call:
\<close>

theorem b32_2x2_forms_defect:
  "b32_2x2AddSubB32_2x2 0 1 0 0 2 0 0 = (2, 0) \<and>
   (b32_1x2AddSubB32_1x2 1 0 0, b32_1x2AddSubB32_1x2 2 0 0) = (1, 2) \<and>
   b32_2x2MulDiv256U 0 0x00FF00FF 0x00800080 0x100 = (0x00800080, 0) \<and>
   (b32_1x2MulDiv256U 0x00FF00FF 0x100, b32_1x2MulDiv256U 0x00800080 0x100) = (0x00FF00FF, 0x00800080)"
  by (simp add: b32_2x2AddSubB32_2x2_def b32_1x2AddSubB32_1x2_def b32_2x2MulDiv256U_def b32_1x2MulDiv256U_def BYTE1x2MASK_def)

text \<open>For all arguments, what the two 2x forms return instead.\<close>

lemma b32_2x2AddSubB32_2x2_returns:
  "b32_2x2AddSubB32_2x2 dst1 a0 b0 c0 a1 b1 c1 = (b32_1x2AddSubB32_1x2 a1 b1 c1, dst1)"
  by (simp add: b32_2x2AddSubB32_2x2_def b32_1x2AddSubB32_1x2_def)

lemma b32_2x2MulDiv256U_returns:
  "b32_2x2MulDiv256U dst1 a0 a1 u = (b32_1x2MulDiv256U a1 u, dst1)"
  by (simp add: b32_2x2MulDiv256U_def b32_1x2MulDiv256U_def)

text \<open>The 2x forms used by the tight-pixel operators do apply the 1x form to each word.\<close>

lemma b32_2x2Saturate_eq:
  "b32_2x2Saturate d0 d1 = (b32_1x2Saturate d0, b32_1x2Saturate d1)"
  by (simp add: b32_2x2Saturate_def b32_1x2Saturate_def Let_def)

lemma b32_2x2AddusB32_2x2_eq:
  "b32_2x2AddusB32_2x2 a0 b0 a1 b1 = (b32_1x2AddusB32_1x2 a0 b0, b32_1x2AddusB32_1x2 a1 b1)"
  by (simp add: b32_2x2AddusB32_2x2_def b32_1x2AddusB32_1x2_def b32_2x2Saturate_eq Let_def)

lemma b32_2x2MulDiv255U_eq:
  "b32_2x2MulDiv255U a0 a1 u = (b32_1x2MulDiv255U a0 u, b32_1x2MulDiv255U a1 u)"
  by (simp add: b32_2x2MulDiv255U_def b32_1x2MulDiv255U_def Let_def)

lemma b32_2x2AddB32_2x2_eq:
  "b32_2x2AddB32_2x2 a0 b0 a1 b1 = (b32_1x2AddB32_1x2 a0 b0, b32_1x2AddB32_1x2 a1 b1)"
  by (simp add: b32_2x2AddB32_2x2_def b32_1x2AddB32_1x2_def)

subsection \<open>Pack and unpack\<close>

text \<open>
  Claim C6.  For every 32-bit pixel \<open>p\<close>, packing the two words of
  \<^const>\<open>b32_2x2Unpack0213\<close> with \<^const>\<open>b32_2x2Pack0213\<close> gives \<open>p\<close> back, and so does
  \<^const>\<open>b64_1x4Pack0213\<close> after \<^const>\<open>b64_1x4Unpack0213\<close>.
\<close>

theorem pack_unpack_roundtrip:
  "b32_2x2Pack0213 (fst (b32_2x2Unpack0213 p)) (snd (b32_2x2Unpack0213 p)) = p \<and>
   b64_1x4Pack0213 (b64_1x4Unpack0213 p) = p"
proof
  show "b32_2x2Pack0213 (fst (b32_2x2Unpack0213 p)) (snd (b32_2x2Unpack0213 p)) = p"
    unfolding b32_2x2Pack0213_def b32_2x2Unpack0213_def Let_def fst_conv snd_conv
    by (rule bit_eqI) (auto simp add: bit_simps bit_masks not_le not_less dest: bit_imp_le_length)
  show "b64_1x4Pack0213 (b64_1x4Unpack0213 p) = p"
    unfolding b64_1x4Pack0213_def b64_1x4Unpack0213_def
    by (rule bit_eqI) (auto simp add: bit_simps bit_masks not_le not_less dest: bit_imp_le_length)
qed


subsection \<open>Lane-wise reading of the packed multiply-divide\<close>

lemma bit_lanes2:
  "bit (lanes2 p q) n \<longleftrightarrow> (n < 16 \<and> bit p n) \<or> (16 \<le> n \<and> n < 32 \<and> bit q (n - 16))"
  unfolding lanes2_def by (auto simp add: bit_simps dest: bit_imp_le_length)

lemma lanes2_plus: "lanes2 p q = take_bit 16 p + q * 2 ^ 16"
  unfolding lanes2_def push_bit_eq_mult [symmetric]
  by (rule disjunctive_add [symmetric]) (auto simp add: bit_simps)

lemma take_bit16_small: "unat (p :: 32 word) < 65536 \<Longrightarrow> take_bit 16 p = p"
  by (simp add: word_unat_eq_iff unat_take)

lemma take_bit8_small: "unat (p :: 32 word) < 256 \<Longrightarrow> take_bit 8 p = p"
  by (simp add: word_unat_eq_iff unat_take)

lemma lanes2_add:
  assumes "unat p + unat r < 65536"
  shows "lanes2 p q + lanes2 r s = lanes2 (p + r) (q + s)"
proof -
  have "unat (p + r) = unat p + unat r"
    using assms by (intro unat_add_small) simp
  then have "take_bit 16 (p + r) = p + r" "take_bit 16 p = p" "take_bit 16 r = r"
    using assms by (simp_all add: take_bit16_small)
  then show ?thesis by (simp add: lanes2_plus algebra_simps)
qed

lemma lanes2_mult_byte:
  assumes "p \<le> 255" "u \<le> 255"
  shows "lanes2 p q * u = lanes2 (p * u) (q * u)"
proof -
  have "unat (p * u) < 65536" "unat p < 65536"
    using unat_mult_byte [OF assms] unat_le255 [OF assms(1)] by simp_all
  then have "take_bit 16 (p * u) = p * u" "take_bit 16 p = p"
    by (simp_all add: take_bit16_small)
  then show ?thesis by (simp add: lanes2_plus algebra_simps)
qed

lemma lanes2_shift_mask:
  "drop_bit 8 (lanes2 p q) AND BYTE1x2MASK =
     lanes2 (take_bit 8 (drop_bit 8 p)) (take_bit 8 (drop_bit 8 q))"
  by (rule bit_eqI) (auto simp add: bit_simps bit_masks bit_lanes2 not_le not_less dest: bit_imp_le_length)

lemma lanes2_shift_mask_small:
  assumes "unat p < 65536" "unat q < 65536"
  shows "drop_bit 8 (lanes2 p q) AND BYTE1x2MASK = lanes2 (drop_bit 8 p) (drop_bit 8 q)"
proof -
  have "unat (drop_bit 8 p) < 256" "unat (drop_bit 8 q) < 256"
    using assms by (simp_all add: unat_drop)
  then show ?thesis by (simp add: lanes2_shift_mask take_bit8_small)
qed

lemma HALF_lanes2: "BYTE1x2HALF = lanes2 0x80 0x80"
  by (simp add: BYTE1x2HALF_def lanes2_def push_bit_eq_mult)

lemma GetB0_lanes2: "b32_1x2GetB0 (lanes2 p q) = take_bit 8 p"
  unfolding b32_1x2GetB0_def and_FF
  by (rule bit_eqI) (auto simp add: bit_simps bit_lanes2)

lemma GetB1_lanes2: "b32_1x2GetB1 (lanes2 p q) = take_bit 16 q"
  unfolding b32_1x2GetB1_def
  by (rule bit_eqI) (auto simp add: bit_simps bit_lanes2 dest: bit_imp_le_length)

lemma lanes2_split:
  assumes "lanes_ok w"
  shows "lanes2 (b32_1x2GetB0 w) (b32_1x2GetB1 w) = w"
  using assms unfolding b32_1x2GetB0_def b32_1x2GetB1_def and_FF lanes_ok_bits
  by (intro bit_eqI)
     (auto simp add: bit_simps bit_lanes2 not_le not_less dest: bit_imp_le_length)

text \<open>One lane of the dual-lane rounding path.\<close>

lemma lane_steps:
  assumes "(p :: 32 word) \<le> 255" "(u :: 32 word) \<le> 255"
  shows "unat (p * u) < 65536"
    and "unat (p * u) + unat (drop_bit 8 (p * u)) < 65536"
    and "unat (p * u + drop_bit 8 (p * u)) + unat (0x80 :: 32 word) < 65536"
    and "unat (p * u + drop_bit 8 (p * u) + 0x80) < 65536"
proof -
  define t where "t = unat p * unat u"
  have t: "unat (p * u) = t" "t \<le> 65025"
    using unat_mult_byte [OF assms] by (simp_all add: t_def)
  have d: "unat (drop_bit 8 (p * u)) = t div 256"
    by (simp add: unat_drop t)
  have s: "unat (p * u + drop_bit 8 (p * u)) = t + t div 256"
    using t d by (intro unat_add_small [THEN trans]) simp_all
  have s2: "unat (p * u + drop_bit 8 (p * u) + 0x80) = t + t div 256 + 128"
    using t s by (intro unat_add_small [THEN trans]) simp_all
  show "unat (p * u) < 65536" using t by simp
  show "unat (p * u) + unat (drop_bit 8 (p * u)) < 65536" using t d by simp
  show "unat (p * u + drop_bit 8 (p * u)) + unat (0x80 :: 32 word) < 65536" using t s by simp
  show "unat (p * u + drop_bit 8 (p * u) + 0x80) < 65536" using t s2 by simp
qed

lemma dual_lane_path:
  assumes "p \<le> 255" "q \<le> 255" "u \<le> 255"
  shows "drop_bit 8 (lanes2 p q * u + (drop_bit 8 (lanes2 p q * u) AND BYTE1x2MASK) + BYTE1x2HALF)
           AND BYTE1x2MASK
         = lanes2 (u32MulDiv255 p u) (u32MulDiv255 q u)"
proof -
  note P = lane_steps [OF assms(1,3)] and Q = lane_steps [OF assms(2,3)]
  have 1: "lanes2 p q * u = lanes2 (p * u) (q * u)"
    by (rule lanes2_mult_byte [OF assms(1,3)])
  have 2: "drop_bit 8 (lanes2 (p * u) (q * u)) AND BYTE1x2MASK
           = lanes2 (drop_bit 8 (p * u)) (drop_bit 8 (q * u))"
    by (rule lanes2_shift_mask_small [OF P(1) Q(1)])
  have 3: "lanes2 (p * u) (q * u) + lanes2 (drop_bit 8 (p * u)) (drop_bit 8 (q * u))
           = lanes2 (p * u + drop_bit 8 (p * u)) (q * u + drop_bit 8 (q * u))"
    by (rule lanes2_add [OF P(2)])
  have 4: "lanes2 (p * u + drop_bit 8 (p * u)) (q * u + drop_bit 8 (q * u)) + lanes2 0x80 0x80
           = lanes2 (p * u + drop_bit 8 (p * u) + 0x80) (q * u + drop_bit 8 (q * u) + 0x80)"
    by (rule lanes2_add [OF P(3)])
  have 5: "drop_bit 8 (lanes2 (p * u + drop_bit 8 (p * u) + 0x80) (q * u + drop_bit 8 (q * u) + 0x80))
             AND BYTE1x2MASK
           = lanes2 (drop_bit 8 (p * u + drop_bit 8 (p * u) + 0x80))
                    (drop_bit 8 (q * u + drop_bit 8 (q * u) + 0x80))"
    by (rule lanes2_shift_mask_small [OF P(4) Q(4)])
  show ?thesis
    by (simp only: 1 2 3 4 5 HALF_lanes2 u32MulDiv255_def Let_def)
qed

lemma b32_1x2MulDiv255U_lanes:
  assumes "lanes_ok a" "u \<le> 255"
  shows "b32_1x2MulDiv255U a u =
         lanes2 (u32MulDiv255 (b32_1x2GetB0 a) u) (u32MulDiv255 (b32_1x2GetB1 a) u)"
proof -
  note l = lanes_ok_lane_values [OF assms(1)]
  have "b32_1x2MulDiv255U (lanes2 (b32_1x2GetB0 a) (b32_1x2GetB1 a)) u =
        lanes2 (u32MulDiv255 (b32_1x2GetB0 a) u) (u32MulDiv255 (b32_1x2GetB1 a) u)"
    unfolding b32_1x2MulDiv255U_def Let_def
    by (rule dual_lane_path [OF l [THEN conjunct1] l [THEN conjunct2] assms(2)])
  then show ?thesis by (simp only: lanes2_split [OF assms(1)])
qed

lemma PremultiplyU_fst: "fst (b32_2x2PremultiplyU a0 a1 u) = b32_1x2MulDiv255U a0 u"
  by (simp add: b32_2x2PremultiplyU_def b32_1x2MulDiv255U_def Let_def)

lemma GetB_scalar_or:
  assumes "(s :: 32 word) \<le> 255" "(u :: 32 word) \<le> 255"
  shows "b32_1x2GetB0 (s OR push_bit 16 u) = s" "b32_1x2GetB1 (s OR push_bit 16 u) = u"
  using assms unfolding b32_1x2GetB0_def b32_1x2GetB1_def and_FF le255_iff_bits
  by (auto intro!: bit_eqI simp add: bit_simps dest: bit_imp_le_length)

subsection \<open>Premultiply\<close>

text \<open>
  Claim C7.  For every widened pixel \<open>(a0, a1)\<close> with all four lanes in \<open>[0,255]\<close> and
  alpha in lane B1 of \<open>a1\<close>, \<^const>\<open>b32_2x2PremultiplyA\<close> leaves the alpha lane equal to
  the input alpha, and the scalar single-lane rounding path (lane B0 of \<open>a1\<close>) and the
  dual-lane rounding path (both lanes of \<open>a0\<close>) compute the same function of the channel
  and alpha, namely \<^const>\<open>u32MulDiv255\<close>.
\<close>

theorem premultiplyA_alpha_preserved:
  assumes "lanes_ok a0" "lanes_ok a1"
  shows "b32_1x2GetB1 (snd (b32_2x2PremultiplyA a0 a1)) = b32_1x2GetB1 a1 \<and>
         b32_1x2GetB0 (snd (b32_2x2PremultiplyA a0 a1)) = u32MulDiv255 (b32_1x2GetB0 a1) (b32_1x2GetB1 a1) \<and>
         b32_1x2GetB0 (fst (b32_2x2PremultiplyA a0 a1)) = u32MulDiv255 (b32_1x2GetB0 a0) (b32_1x2GetB1 a1) \<and>
         b32_1x2GetB1 (fst (b32_2x2PremultiplyA a0 a1)) = u32MulDiv255 (b32_1x2GetB1 a0) (b32_1x2GetB1 a1)"
proof -
  define \<alpha> where "\<alpha> = b32_1x2GetB1 a1"
  have al: "\<alpha> \<le> 255" and g: "b32_1x2GetB0 a1 \<le> 255"
    using lanes_ok_lane_values [OF assms(2)] by (simp_all add: \<alpha>_def)
  have c: "b32_1x2GetB0 a0 \<le> 255" "b32_1x2GetB1 a0 \<le> 255"
    using lanes_ok_lane_values [OF assms(1)] by simp_all
  have s: "u32MulDiv255 (b32_1x2GetB0 a1) \<alpha> \<le> 255"
    by (rule u32MulDiv255_le255 [OF g al])
  have m: "u32MulDiv255 (b32_1x2GetB0 a0) \<alpha> \<le> 255" "u32MulDiv255 (b32_1x2GetB1 a0) \<alpha> \<le> 255"
    by (rule u32MulDiv255_le255 [OF _ al], rule c)+
  have snd_eq: "snd (b32_2x2PremultiplyA a0 a1) = u32MulDiv255 (b32_1x2GetB0 a1) \<alpha> OR push_bit 16 \<alpha>"
    by (simp add: b32_2x2PremultiplyA_def PremultiplyU_snd \<alpha>_def b32_1x2GetB0_def)
  have fst_eq: "fst (b32_2x2PremultiplyA a0 a1) =
      lanes2 (u32MulDiv255 (b32_1x2GetB0 a0) \<alpha>) (u32MulDiv255 (b32_1x2GetB1 a0) \<alpha>)"
    using b32_1x2MulDiv255U_lanes [OF assms(1) al]
    by (simp add: b32_2x2PremultiplyA_def PremultiplyU_fst \<alpha>_def)
  have t8: "take_bit 8 x = x" "take_bit 16 x = x" if "x \<le> 255" for x :: "32 word"
    using unat_le255 [OF that] by (simp_all add: take_bit8_small take_bit16_small)
  show ?thesis
    unfolding \<alpha>_def [symmetric] snd_eq fst_eq GetB0_lanes2 GetB1_lanes2
    using GetB_scalar_or [OF s al] t8 [OF m(1)] t8 [OF m(2)] by simp
qed

theorem premultiplyA_alpha_preserved_witness:
  "lanes_ok 0x00800040 \<and> lanes_ok 0x00C00020 \<and>
   b32_1x2GetB1 (snd (b32_2x2PremultiplyA 0x00800040 0x00C00020)) = b32_1x2GetB1 0x00C00020 \<and>
   b32_1x2GetB0 (snd (b32_2x2PremultiplyA 0x00800040 0x00C00020)) =
     u32MulDiv255 (b32_1x2GetB0 0x00C00020) (b32_1x2GetB1 0x00C00020) \<and>
   b32_1x2GetB0 (fst (b32_2x2PremultiplyA 0x00800040 0x00C00020)) =
     u32MulDiv255 (b32_1x2GetB0 0x00800040) (b32_1x2GetB1 0x00C00020) \<and>
   b32_1x2GetB1 (fst (b32_2x2PremultiplyA 0x00800040 0x00C00020)) =
     u32MulDiv255 (b32_1x2GetB1 0x00800040) (b32_1x2GetB1 0x00C00020)"
proof -
  have h: "lanes_ok 0x00800040" "lanes_ok 0x00C00020"
    by (simp_all add: lanes_ok_def b32_lane0_def b32_lane1_def)
  from premultiplyA_alpha_preserved [OF h] h show ?thesis by blast
qed

subsection \<open>Two 32-bit words in one 64-bit word\<close>

lemma bit_join64:
  "bit (join64 a b) n \<longleftrightarrow> (n < 32 \<and> bit a n) \<or> (32 \<le> n \<and> n < 64 \<and> bit b (n - 32))"
  unfolding join64_def by (auto simp add: bit_simps dest: bit_imp_le_length)

lemma unpack64_join:
  "(ucast x OR push_bit 24 (ucast x)) AND BYTE_1x4MASK =
     join64 (x AND BYTE1x2MASK) (drop_bit 8 x AND BYTE1x2MASK)"
  by (rule bit_eqI)
     (auto simp add: bit_simps bit_masks bit_join64 not_le not_less dest: bit_imp_le_length)

lemma join64_shift_mask:
  "drop_bit 8 (join64 a b) AND BYTE_1x4MASK =
     join64 (drop_bit 8 a AND BYTE1x2MASK) (drop_bit 8 b AND BYTE1x2MASK)"
  by (rule bit_eqI)
     (auto simp add: bit_simps bit_masks bit_join64 not_le not_less dest: bit_imp_le_length)

lemma join64_or: "join64 a b OR join64 c d = join64 (a OR c) (b OR d)"
  by (rule bit_eqI) (auto simp add: bit_simps bit_join64)

lemma join64_and_mask:
  "join64 a b AND BYTE_1x4MASK = join64 (a AND BYTE1x2MASK) (b AND BYTE1x2MASK)"
  by (rule bit_eqI)
     (auto simp add: bit_simps bit_masks bit_join64 not_le not_less dest: bit_imp_le_length)

lemma pack64_join:
  "ucast (join64 (a AND BYTE1x2MASK) (b AND BYTE1x2MASK)
          OR drop_bit 24 (join64 (a AND BYTE1x2MASK) (b AND BYTE1x2MASK)))
   = (a AND BYTE1x2MASK) OR push_bit 8 (b AND BYTE1x2MASK)"
  by (rule bit_eqI)
     (auto simp add: bit_simps bit_masks bit_join64 not_le not_less dest: bit_imp_le_length)

lemma join64_plus: "join64 a b = ucast a + ucast b * 2 ^ 32"
  unfolding join64_def push_bit_eq_mult [symmetric]
  by (rule disjunctive_add [symmetric]) (auto simp add: bit_simps dest: bit_imp_le_length)

lemma hi_trunc: "(X :: 64 word) * 2 ^ 32 = take_bit 32 X * 2 ^ 32"
  unfolding push_bit_eq_mult [symmetric]
  by (rule bit_eqI) (auto simp add: bit_simps)

lemma unat_ucast_32_64: "unat (ucast (a :: 32 word) :: 64 word) = unat a"
proof -
  have "unat a < 2 ^ 64"
    using unsigned_less [of a, where 'a = nat] by simp
  then show ?thesis
    by (simp add: unsigned_ucast_eq take_bit_nat_eq_self)
qed

lemma unat32_bound: "unat (a :: 32 word) < 4294967296"
  using unsigned_less [of a, where 'a = nat] by simp

lemma ucast_add_trunc:
  "take_bit 32 (ucast a + ucast b :: 64 word) = ucast (a + b :: 32 word)"
proof -
  have "unat a + unat b < 2 ^ 64"
    using unat32_bound [of a] unat32_bound [of b] by simp
  then have "unat (ucast a + ucast b :: 64 word) = unat a + unat b"
    using unat_add_lem [of "ucast a :: 64 word" "ucast b"] by (simp add: unat_ucast_32_64)
  then show ?thesis
    by (simp add: word_unat_eq_iff unat_take unat_ucast_32_64 unat_word_ariths)
qed

lemma ucast_mult_trunc:
  "take_bit 32 (ucast a * ucast b :: 64 word) = ucast (a * b :: 32 word)"
proof -
  have "unat a * unat b \<le> 4294967295 * 4294967295"
    using unat32_bound [of a] unat32_bound [of b] by (intro mult_le_mono) simp_all
  then have "unat a * unat b < 2 ^ 64" by simp
  then have "unat (ucast a * ucast b :: 64 word) = unat a * unat b"
    using unat_mult_lem [of "ucast a :: 64 word" "ucast b"] by (simp add: unat_ucast_32_64)
  then show ?thesis
    by (simp add: word_unat_eq_iff unat_take unat_ucast_32_64 unat_word_ariths)
qed

lemma take_bit32_ucast: "take_bit 32 (ucast (a :: 32 word) :: 64 word) = ucast a"
  by (rule bit_eqI) (auto simp add: bit_simps dest: bit_imp_le_length)

lemma ucast_add_exact:
  assumes "unat a + unat b < 2 ^ 32"
  shows "(ucast a + ucast b :: 64 word) = ucast (a + b :: 32 word)"
proof -
  have "unat (ucast a + ucast b :: 64 word) = unat a + unat b"
    using assms unat_add_lem [of "ucast a :: 64 word" "ucast b"] by (simp add: unat_ucast_32_64)
  moreover have "unat (a + b) = unat a + unat b"
    using assms by (rule unat_add_small)
  ultimately show ?thesis by (simp add: word_unat_eq_iff unat_ucast_32_64)
qed

lemma ucast_mult_exact:
  assumes "unat a * unat b < 2 ^ 32"
  shows "(ucast a * ucast b :: 64 word) = ucast (a * b :: 32 word)"
proof -
  have "unat (ucast a * ucast b :: 64 word) = unat a * unat b"
    using assms unat_mult_lem [of "ucast a :: 64 word" "ucast b"] by (simp add: unat_ucast_32_64)
  moreover have "unat (a * b) = unat a * unat b"
    using assms by (rule unat_mult_small)
  ultimately show ?thesis by (simp add: word_unat_eq_iff unat_ucast_32_64)
qed

lemma join64_add:
  assumes "unat a + unat c < 2 ^ 32"
  shows "join64 a b + join64 c d = join64 (a + c) (b + d)"
proof -
  have "join64 a b + join64 c d = (ucast a + ucast c) + (ucast b + ucast d) * 2 ^ 32"
    by (simp add: join64_plus algebra_simps)
  also have "(ucast b + ucast d :: 64 word) * 2 ^ 32 = ucast (b + d) * 2 ^ 32"
    by (subst hi_trunc) (simp only: ucast_add_trunc)
  finally show ?thesis
    by (simp only: ucast_add_exact [OF assms] join64_plus)
qed

lemma join64_mult:
  assumes "unat a * unat u < 2 ^ 32"
  shows "join64 a b * ucast u = join64 (a * u) (b * u)"
proof -
  have "join64 a b * ucast u = (ucast a * ucast u) + (ucast b * ucast u) * 2 ^ 32"
    by (simp add: join64_plus algebra_simps)
  also have "(ucast b * ucast u :: 64 word) * 2 ^ 32 = ucast (b * u) * 2 ^ 32"
    by (subst hi_trunc) (simp only: ucast_mult_trunc)
  finally show ?thesis
    by (simp only: ucast_mult_exact [OF assms] join64_plus)
qed

lemma join64_diff:
  assumes "v \<le> c"
  shows "join64 c d - join64 v w = join64 (c - v) (d - w)"
proof -
  have "unat (c - v) + unat v = unat c"
    using assms by (simp add: unat_sub word_le_nat_alt)
  then have "unat (c - v) + unat v < 2 ^ 32"
    using unat32_bound [of c] by simp
  from join64_add [OF this, of "d - w" w] show ?thesis
    by (simp add: algebra_simps)
qed


lemma and_mask_take24: "X AND BYTE1x2MASK = take_bit 24 X AND BYTE1x2MASK"
  by (rule bit_eqI) (auto simp add: bit_simps bit_masks)

lemma take24_plus: "take_bit 24 (w + 0x0F000000 :: 32 word) = take_bit 24 w"
proof -
  have "(unat w + 251658240) mod 4294967296 mod 16777216 = (unat w + 251658240) mod 16777216"
    by (rule mod_mod_cancel) simp
  also have "\<dots> = (unat w + 15 * 16777216) mod 16777216" by simp
  also have "\<dots> = unat w mod 16777216" by (rule mod_mult_self1)
  finally show ?thesis
    by (simp add: word_unat_eq_iff unat_take unat_word_ariths)
qed

lemma Saturate_std:
  "b32_1x2Saturate d =
     (d OR (0x01000100 - (drop_bit 8 d AND BYTE1x2MASK))) AND BYTE1x2MASK"
proof -
  define v where "v = drop_bit 8 d AND BYTE1x2MASK"
  have "BYTE1x2MASK_PLUS_ONE - v = (0x01000100 - v) + 0x0F000000"
    by (simp add: BYTE1x2MASK_PLUS_ONE_def)
  then have "(BYTE1x2MASK_PLUS_ONE - v) AND BYTE1x2MASK = (0x01000100 - v) AND BYTE1x2MASK"
    using and_mask_take24 [of "(0x01000100 - v) + 0x0F000000"]
      and_mask_take24 [of "0x01000100 - v"]
    by (simp only: take24_plus)
  then have "(d OR (BYTE1x2MASK_PLUS_ONE - v)) AND BYTE1x2MASK =
             (d OR (0x01000100 - v)) AND BYTE1x2MASK"
    by (simp only: bit.conj_disj_distrib2)
  then show ?thesis
    unfolding b32_1x2Saturate_def Let_def v_def BYTE1x2MASK_def [symmetric] .
qed

lemma Unpack0213_eq:
  "b32_2x2Unpack0213 x = (x AND BYTE1x2MASK, drop_bit 8 x AND BYTE1x2MASK)"
  by (simp add: b32_2x2Unpack0213_def Let_def)

lemma drop8_headroom: "drop_bit 8 (x AND headroom_mask) = drop_bit 8 x AND BYTE1x2MASK"
  by (rule bit_eqI) (auto simp add: bit_simps bit_masks dest: bit_imp_le_length)

lemma and_headroom_push8: "s AND headroom_mask = push_bit 8 (drop_bit 8 s AND BYTE1x2MASK)"
  by (rule bit_eqI) (auto simp add: bit_simps bit_masks dest: bit_imp_le_length)

lemma BYTE_1x4MASK_join: "BYTE_1x4MASK = join64 BYTE1x2MASK BYTE1x2MASK"
  by (simp add: join64_def byte_consts push_bit_eq_mult)

lemma C64_join: "(0x0100010001000100 :: 64 word) = join64 0x01000100 0x01000100"
  by (simp add: join64_def push_bit_eq_mult)

lemma H64_join: "(0x0080008000800080 :: 64 word) = join64 BYTE1x2HALF BYTE1x2HALF"
  by (simp add: join64_def push_bit_eq_mult byte_consts)

lemma and_mask_unat_le: "unat (x AND BYTE1x2MASK) \<le> 16711935"
  using word_and_le1 [of x BYTE1x2MASK] by (simp add: word_le_nat_alt BYTE1x2MASK_def)

lemma and_mask_le_C: "x AND BYTE1x2MASK \<le> 0x01000100"
  using and_mask_unat_le [of x] by (simp add: word_le_nat_alt)

text \<open>The 32-bit and the 64-bit body of the saturating add, on the unpacked halves.\<close>

lemma addus32_body:
  "(let t0 = x AND 0x00FF00FF;
        t1 = drop_bit 8 (x AND 0xFF00FF00);
        t0 = t0 + (y AND 0x00FF00FF);
        t1 = t1 + drop_bit 8 (y AND 0xFF00FF00);
        t0 = t0 OR (0x01000100 - (drop_bit 8 t0 AND 0x00FF00FF));
        t1 = t1 OR (0x01000100 - (drop_bit 8 t1 AND 0x00FF00FF));
        t0 = t0 AND 0x00FF00FF;
        t1 = t1 AND 0x00FF00FF
    in t0 OR push_bit 8 t1) =
   b32_1x2Saturate ((x AND BYTE1x2MASK) + (y AND BYTE1x2MASK)) OR
   push_bit 8 (b32_1x2Saturate ((drop_bit 8 x AND BYTE1x2MASK) + (drop_bit 8 y AND BYTE1x2MASK)))"
  unfolding Let_def BYTE1x2MASK_def [symmetric] headroom_mask_def [symmetric]
    drop8_headroom Saturate_std ..

lemma addus64_body:
  "(let x0 = (ucast x OR push_bit 24 (ucast x)) AND (0x00FF00FF00FF00FF :: uint64_t);
        y0 = (ucast y OR push_bit 24 (ucast y)) AND (0x00FF00FF00FF00FF :: uint64_t);
        x0 = x0 + y0;
        x0 = x0 OR (0x0100010001000100 - (drop_bit 8 x0 AND 0x00FF00FF00FF00FF));
        x0 = x0 AND 0x00FF00FF00FF00FF
    in (ucast (x0 OR drop_bit 24 x0) :: 32 word)) =
   b32_1x2Saturate ((x AND BYTE1x2MASK) + (y AND BYTE1x2MASK)) OR
   push_bit 8 (b32_1x2Saturate ((drop_bit 8 x AND BYTE1x2MASK) + (drop_bit 8 y AND BYTE1x2MASK)))"
proof -
  define px py qx qy where d: "px = x AND BYTE1x2MASK" "py = y AND BYTE1x2MASK"
    "qx = drop_bit 8 x AND BYTE1x2MASK" "qy = drop_bit 8 y AND BYTE1x2MASK"
  have sum: "join64 px qx + join64 py qy = join64 (px + py) (qx + qy)"
    using and_mask_unat_le [of x] and_mask_unat_le [of y]
    by (intro join64_add) (simp add: d)
  have diff: "join64 0x01000100 0x01000100 -
        join64 (drop_bit 8 (px + py) AND BYTE1x2MASK) (drop_bit 8 (qx + qy) AND BYTE1x2MASK)
      = join64 (0x01000100 - (drop_bit 8 (px + py) AND BYTE1x2MASK))
               (0x01000100 - (drop_bit 8 (qx + qy) AND BYTE1x2MASK))"
    by (intro join64_diff and_mask_le_C)
  show ?thesis
    unfolding Let_def BYTE_1x4MASK_def [symmetric] unpack64_join d [symmetric] sum
      join64_shift_mask C64_join diff join64_or join64_and_mask pack64_join Saturate_std ..
qed

text \<open>The 32-bit and the 64-bit body of the multiply-divide, on the unpacked halves.\<close>

lemma muldiv32_body:
  "(let t0 = (x AND 0x00FF00FF) * a;
        t1 = drop_bit 8 (x AND 0xFF00FF00) * a;
        x = drop_bit 8 (t0 + (drop_bit 8 t0 AND 0x00FF00FF) + 0x00800080) AND 0x00FF00FF;
        x = x OR ((t1 + (drop_bit 8 t1 AND 0x00FF00FF) + 0x00800080) AND 0xFF00FF00)
    in x) =
   b32_1x2MulDiv255U (x AND BYTE1x2MASK) a OR
   push_bit 8 (b32_1x2MulDiv255U (drop_bit 8 x AND BYTE1x2MASK) a)"
  unfolding Let_def b32_1x2MulDiv255U_def BYTE1x2HALF_def
    BYTE1x2MASK_def [symmetric] headroom_mask_def [symmetric] drop8_headroom
  unfolding and_headroom_push8 ..

lemma muldiv64_body:
  assumes "a \<le> 255"
  shows "(let x0 = (ucast x OR push_bit 24 (ucast x)) AND (0x00FF00FF00FF00FF :: uint64_t);
        x0 = x0 * ucast a;
        x0 = drop_bit 8 (x0 + (drop_bit 8 x0 AND 0x00FF00FF00FF00FF) + 0x0080008000800080);
        x0 = x0 AND 0x00FF00FF00FF00FF
    in (ucast (x0 OR drop_bit 24 x0) :: 32 word)) =
   b32_1x2MulDiv255U (x AND BYTE1x2MASK) a OR
   push_bit 8 (b32_1x2MulDiv255U (drop_bit 8 x AND BYTE1x2MASK) a)"
proof -
  define px qx where d: "px = x AND BYTE1x2MASK" "qx = drop_bit 8 x AND BYTE1x2MASK"
  define t0 t1 where t: "t0 = px * a" "t1 = qx * a"
  define r0 r1 where r: "r0 = drop_bit 8 t0 AND BYTE1x2MASK" "r1 = drop_bit 8 t1 AND BYTE1x2MASK"
  have pa: "unat px * unat a \<le> 16711935 * 255"
    using and_mask_unat_le [of x] unat_le255 [OF assms]
    by (intro mult_le_mono) (simp_all add: d)
  then have ut0: "unat t0 = unat px * unat a"
    unfolding t by (intro unat_mult_small) simp
  have prod: "join64 px qx * ucast a = join64 t0 t1"
    unfolding t using pa by (intro join64_mult) simp
  have ur0: "unat r0 \<le> 16711935"
    unfolding r by (rule and_mask_unat_le)
  have sum1: "join64 t0 t1 + join64 r0 r1 = join64 (t0 + r0) (t1 + r1)"
    using pa ur0 by (intro join64_add) (simp add: ut0)
  have us: "unat (t0 + r0) = unat t0 + unat r0"
    using pa ur0 by (intro unat_add_small) (simp add: ut0)
  have sum2: "join64 (t0 + r0) (t1 + r1) + join64 BYTE1x2HALF BYTE1x2HALF
              = join64 (t0 + r0 + BYTE1x2HALF) (t1 + r1 + BYTE1x2HALF)"
    using pa ur0 by (intro join64_add) (simp add: us ut0 BYTE1x2HALF_def)
  show ?thesis
    unfolding Let_def BYTE_1x4MASK_def [symmetric] unpack64_join d [symmetric] prod
      join64_shift_mask r [symmetric] sum1 H64_join sum2 pack64_join
      b32_1x2MulDiv255U_def t [symmetric] ..
qed

subsection \<open>Tight-pixel operators\<close>

text \<open>
  Claim C4.  For all tight pixels \<open>x\<close> and \<open>y\<close>, \<^const>\<open>p32AddusP32\<close> equals
  \<^const>\<open>b32_2x2Pack0213\<close> of \<^const>\<open>b32_2x2AddusB32_2x2\<close> of the
  \<^const>\<open>b32_2x2Unpack0213\<close> halves of \<open>x\<close> and \<open>y\<close>, and for every \<open>a\<close> in \<open>[0,255]\<close>
  \<^const>\<open>p32MulDiv255U\<close> equals the pack of \<^const>\<open>b32_2x2MulDiv255U\<close> of the unpacked
  halves of \<open>x\<close>; both for the 64-bit and for the 32-bit body of the source.
\<close>

theorem tight_pixel_ops_refine_packed:
  assumes "a \<le> 255"
  shows "p32AddusP32 arch x y =
    (case b32_2x2Unpack0213 x of (x0, x1) \<Rightarrow>
     case b32_2x2Unpack0213 y of (y0, y1) \<Rightarrow>
     case b32_2x2AddusB32_2x2 x0 y0 x1 y1 of (d0, d1) \<Rightarrow> b32_2x2Pack0213 d0 d1) \<and>
   p32MulDiv255U arch x a =
    (case b32_2x2Unpack0213 x of (x0, x1) \<Rightarrow>
     case b32_2x2MulDiv255U x0 x1 a of (d0, d1) \<Rightarrow> b32_2x2Pack0213 d0 d1)"
proof
  have rhs: "(case b32_2x2Unpack0213 x of (x0, x1) \<Rightarrow>
     case b32_2x2Unpack0213 y of (y0, y1) \<Rightarrow>
     case b32_2x2AddusB32_2x2 x0 y0 x1 y1 of (d0, d1) \<Rightarrow> b32_2x2Pack0213 d0 d1) =
   b32_1x2Saturate ((x AND BYTE1x2MASK) + (y AND BYTE1x2MASK)) OR
   push_bit 8 (b32_1x2Saturate ((drop_bit 8 x AND BYTE1x2MASK) + (drop_bit 8 y AND BYTE1x2MASK)))"
    by (simp add: Unpack0213_eq b32_2x2AddusB32_2x2_eq b32_1x2AddusB32_1x2_def b32_2x2Pack0213_def)
  show "p32AddusP32 arch x y =
    (case b32_2x2Unpack0213 x of (x0, x1) \<Rightarrow>
     case b32_2x2Unpack0213 y of (y0, y1) \<Rightarrow>
     case b32_2x2AddusB32_2x2 x0 y0 x1 y1 of (d0, d1) \<Rightarrow> b32_2x2Pack0213 d0 d1)"
  proof (cases "arch = 64")
    case True
    then show ?thesis unfolding rhs p32AddusP32_def
      by (simp only: simp_thms if_True addus64_body)
  next
    case False
    then show ?thesis unfolding rhs p32AddusP32_def
      by (simp only: simp_thms if_False addus32_body)
  qed
next
  have rhs: "(case b32_2x2Unpack0213 x of (x0, x1) \<Rightarrow>
     case b32_2x2MulDiv255U x0 x1 a of (d0, d1) \<Rightarrow> b32_2x2Pack0213 d0 d1) =
   b32_1x2MulDiv255U (x AND BYTE1x2MASK) a OR
   push_bit 8 (b32_1x2MulDiv255U (drop_bit 8 x AND BYTE1x2MASK) a)"
    by (simp add: Unpack0213_eq b32_2x2MulDiv255U_eq b32_2x2Pack0213_def)
  show "p32MulDiv255U arch x a =
    (case b32_2x2Unpack0213 x of (x0, x1) \<Rightarrow>
     case b32_2x2MulDiv255U x0 x1 a of (d0, d1) \<Rightarrow> b32_2x2Pack0213 d0 d1)"
  proof (cases "arch = 64")
    case True
    then show ?thesis unfolding rhs p32MulDiv255U_def
      by (simp only: simp_thms if_True muldiv64_body [OF assms])
  next
    case False
    then show ?thesis unfolding rhs p32MulDiv255U_def
      by (simp only: simp_thms if_False muldiv32_body)
  qed
qed

theorem tight_pixel_ops_refine_packed_witness:
  "(200 :: 32 word) \<le> 255 \<and>
   p32AddusP32 64 0xFF804020 0x00FFFFFF =
    (case b32_2x2Unpack0213 0xFF804020 of (x0, x1) \<Rightarrow>
     case b32_2x2Unpack0213 0x00FFFFFF of (y0, y1) \<Rightarrow>
     case b32_2x2AddusB32_2x2 x0 y0 x1 y1 of (d0, d1) \<Rightarrow> b32_2x2Pack0213 d0 d1) \<and>
   p32MulDiv255U 64 0xFF804020 200 =
    (case b32_2x2Unpack0213 0xFF804020 of (x0, x1) \<Rightarrow>
     case b32_2x2MulDiv255U x0 x1 200 of (d0, d1) \<Rightarrow> b32_2x2Pack0213 d0 d1)"
proof -
  have h: "(200 :: 32 word) \<le> 255" by simp
  from tight_pixel_ops_refine_packed [OF h, of 64 "0xFF804020" "0x00FFFFFF"] h show ?thesis by blast
qed

text \<open>The concrete scenario of the specification, for both bodies.\<close>

lemma p32AddusP32_scenario:
  "p32AddusP32 64 0xFF804020 0x00FFFFFF = 0xFFFFFFFF"
  "p32AddusP32 32 0xFF804020 0x00FFFFFF = 0xFFFFFFFF"
  by (simp_all add: p32AddusP32_def)

end
